theory Spec2Isabelle
  imports Main "HOL-Library.Sublist"
begin

section \<open>JavaScript values used by \<open>Git.js\<close>\<close>

text \<open>
  A JavaScript string is a \<open>string\<close> (a list of characters); a value that may be
  \<open>null\<close> or \<open>undefined\<close> is an \<open>option\<close>.  \<open>truthy\<close> is the test the source
  writes as \<open>!x\<close> or \<open>x || y\<close> on such a value: \<open>null\<close>, \<open>undefined\<close> and the empty
  string are falsy.
\<close>

definition truthy :: "string option \<Rightarrow> bool" where
  "truthy x = (case x of None \<Rightarrow> False | Some s \<Rightarrow> s \<noteq> [])"

text \<open>\<open>String.prototype.indexOf\<close>: the first index at which \<open>sub\<close> occurs, or \<open>-1\<close>.\<close>

fun string_indexOf :: "string \<Rightarrow> string \<Rightarrow> int" where
  "string_indexOf [] sub = (if sub = [] then 0 else - 1)"
| "string_indexOf (c # cs) sub =
     (if prefix sub (c # cs) then 0
      else (let r = string_indexOf cs sub in if r < 0 then - 1 else r + 1))"

text \<open>\<open>Array.prototype.indexOf\<close>: the first index holding \<open>x\<close>, or \<open>-1\<close>.\<close>

fun array_indexOf :: "'a list \<Rightarrow> 'a \<Rightarrow> int" where
  "array_indexOf [] x = - 1"
| "array_indexOf (y # ys) x =
     (if y = x then 0
      else (let r = array_indexOf ys x in if r < 0 then - 1 else r + 1))"

text \<open>
  \<open>s.split(sep)\<close> for a separator of one character: the pieces between the
  separators, so the empty string gives one empty piece.
\<close>

fun split_on :: "char \<Rightarrow> string \<Rightarrow> string list" where
  "split_on sep [] = [[]]"
| "split_on sep (c # cs) =
     (if c = sep then [] # split_on sep cs
      else (case split_on sep cs of [] \<Rightarrow> [[c]] | l # ls \<Rightarrow> (c # l) # ls))"

definition newline :: char where
  "newline = CHR 0x0A"

definition tab :: char where
  "tab = CHR 0x09"

text \<open>\<open>Array.prototype.join\<close> for a separator of one character.\<close>

fun join_on :: "char \<Rightarrow> string list \<Rightarrow> string" where
  "join_on sep [] = []"
| "join_on sep [s] = s"
| "join_on sep (s # t # ss) = s @ sep # join_on sep (t # ss)"

text \<open>
  \<open>path.resolve\<close> of Node on a POSIX host.  The arguments are read from the right
  until an absolute one is met, the working directory of the process coming after the
  leftmost; empty arguments are skipped.  The path so joined is normalised segment by
  segment: an empty segment and \<open>.\<close> are dropped, \<open>..\<close> removes the segment before it
  and, in a path that is not absolute, stays when there is none to remove.  The
  result carries no trailing slash; a relative result that is empty is \<open>.\<close>.

  \<open>normalize_segment\<close> handles one segment, the segments kept so far being held last
  first.
\<close>

definition normalize_segment :: "bool \<Rightarrow> string \<Rightarrow> string list \<Rightarrow> string list" where
  "normalize_segment allowAboveRoot s res =
     (if s = [] \<or> s = ''.'' then res
      else if s = ''..'' then
        (case res of
           [] \<Rightarrow> if allowAboveRoot then [s] else []
         | t # ts \<Rightarrow> if t \<noteq> ''..'' then ts else if allowAboveRoot then s # res else res)
      else s # res)"

definition normalizeString :: "string \<Rightarrow> bool \<Rightarrow> string list" where
  "normalizeString p allowAboveRoot =
     rev (fold (normalize_segment allowAboveRoot) (split_on CHR ''/'' p) [])"

fun resolve_args :: "string list \<Rightarrow> string \<Rightarrow> string \<times> bool" where
  "resolve_args [] resolvedPath = (resolvedPath, False)"
| "resolve_args (p # ps) resolvedPath =
     (if p = [] then resolve_args ps resolvedPath
      else if hd p = CHR ''/'' then (p @ ''/'' @ resolvedPath, True)
      else resolve_args ps (p @ ''/'' @ resolvedPath))"

definition path_resolve :: "string \<Rightarrow> string list \<Rightarrow> string" where
  "path_resolve workdir paths =
     (case resolve_args (rev paths @ [workdir]) [] of
        (resolvedPath, resolvedAbsolute) \<Rightarrow>
          (let res = join_on CHR ''/'' (normalizeString resolvedPath (\<not> resolvedAbsolute))
           in if resolvedAbsolute then ''/'' @ res
              else if res \<noteq> [] then res else ''.''))"

section \<open>The two regular expressions of \<open>getRemoteBranchList\<close>\<close>

text \<open>
  Both expressions have the shape \<open>/.+?LIT(\d+\.\d+\.\d+)/g\<close>, with \<open>LIT\<close> the literal
  \<open>refs/tags/release/\<close> or \<open>refs/heads/dev/\<close>.  \<open>\d\<close> is an ASCII digit and \<open>.\<close> is any
  character but a line terminator.
\<close>

definition is_digit :: "char \<Rightarrow> bool" where
  "is_digit c = (c \<in> set ''0123456789'')"

definition line_terminator :: "char \<Rightarrow> bool" where
  "line_terminator c = (c = CHR 0x0A \<or> c = CHR 0x0D)"

text \<open>
  The group \<open>(\d+\.\d+\.\d+)\<close> at the start of \<open>s\<close>.  Each \<open>\d+\<close> is greedy; giving a
  digit back never helps, since the character after a shorter run is a digit and not
  the dot the expression wants next, so the longest run is the only candidate.
\<close>

definition match_version :: "string \<Rightarrow> string option" where
  "match_version s =
     (let d1 = takeWhile is_digit s; r1 = dropWhile is_digit s in
      if d1 = [] then None
      else case r1 of
        [] \<Rightarrow> None
      | c1 # t1 \<Rightarrow>
          if c1 \<noteq> CHR ''.'' then None
          else
            (let d2 = takeWhile is_digit t1; r2 = dropWhile is_digit t1 in
             if d2 = [] then None
             else case r2 of
               [] \<Rightarrow> None
             | c2 # t2 \<Rightarrow>
                 if c2 \<noteq> CHR ''.'' then None
                 else
                   (let d3 = takeWhile is_digit t2 in
                    if d3 = [] then None
                    else Some (d1 @ ''.'' @ d2 @ ''.'' @ d3))))"

text \<open>
  The whole expression anchored at the start of \<open>s\<close>: the lazy \<open>.+?\<close> takes one
  character, then as few more as possible until the literal and the version follow.
  The result is the captured group and the length of the match.
\<close>

fun match_here :: "string \<Rightarrow> string \<Rightarrow> (string \<times> nat) option" where
  "match_here lit [] = None"
| "match_here lit (c # cs) =
     (if line_terminator c then None
      else
        (case (if prefix lit cs then match_version (drop (length lit) cs) else None) of
           Some v \<Rightarrow> Some (v, 1 + length lit + length v)
         | None \<Rightarrow>
            (case match_here lit cs of
               None \<Rightarrow> None
             | Some (v, n) \<Rightarrow> Some (v, Suc n))))"

text \<open>The leftmost match in \<open>s\<close>: the captured group and the index where the match ends.\<close>

fun search :: "string \<Rightarrow> string \<Rightarrow> (string \<times> nat) option" where
  "search lit [] = None"
| "search lit (c # cs) =
     (case match_here lit (c # cs) of
        Some r \<Rightarrow> Some r
      | None \<Rightarrow>
         (case search lit cs of
            None \<Rightarrow> None
          | Some (v, e) \<Rightarrow> Some (v, Suc e)))"

text \<open>
  \<open>reg.exec(s)\<close> of a regular expression with the \<open>g\<close> flag.  The expression object
  keeps \<open>lastIndex\<close> between calls: the search starts there, a match moves it to the
  end of the match, and a failure (or a \<open>lastIndex\<close> beyond the string) resets it
  to \<open>0\<close>.  The result is the captured group (\<open>None\<close> for \<open>null\<close>) and the new
  \<open>lastIndex\<close>.
\<close>

definition regexp_exec :: "string \<Rightarrow> nat \<Rightarrow> string \<Rightarrow> string option \<times> nat" where
  "regexp_exec lit lastIndex s =
     (if lastIndex > length s then (None, 0)
      else case search lit (drop lastIndex s) of
             None \<Rightarrow> (None, 0)
           | Some (v, e) \<Rightarrow> (Some v, lastIndex + e))"

section \<open>Semantic versions\<close>

text \<open>
  Modelled from the spec: \<open>semver.valid\<close> belongs to the \<open>semver\<close> package, which is
  not part of the sources.  The spec asks for "a well-formed semantic version": the
  grammar \<open>MAJOR.MINOR.PATCH\<close> of numeric identifiers without leading zeros, with an
  optional \<open>-prerelease\<close> and an optional \<open>+build\<close>.  The functions of the repository
  take the validator as a parameter (\<open>semver_valid\<close> of the environment); this one is
  the instance the worked examples use.
\<close>

definition numeric_identifier :: "string \<Rightarrow> bool" where
  "numeric_identifier d = (d \<noteq> [] \<and> list_all is_digit d \<and> (d = ''0'' \<or> hd d \<noteq> CHR ''0''))"

definition ident_char :: "char \<Rightarrow> bool" where
  "ident_char c =
     (is_digit c \<or> c = CHR ''-''
      \<or> c \<in> set ''abcdefghijklmnopqrstuvwxyz''
      \<or> c \<in> set ''ABCDEFGHIJKLMNOPQRSTUVWXYZ'')"

definition build_identifier :: "string \<Rightarrow> bool" where
  "build_identifier d = (d \<noteq> [] \<and> list_all ident_char d)"

definition prerelease_identifier :: "string \<Rightarrow> bool" where
  "prerelease_identifier d =
     (build_identifier d \<and> (if list_all is_digit d then numeric_identifier d else True))"

definition semver_core :: "string \<Rightarrow> bool" where
  "semver_core s =
     (case split_on (CHR ''.'') s of
        [a, b, c] \<Rightarrow> numeric_identifier a \<and> numeric_identifier b \<and> numeric_identifier c
      | _ \<Rightarrow> False)"

definition semver2_valid :: "string \<Rightarrow> bool" where
  "semver2_valid s =
     (let main = takeWhile (\<lambda>c. c \<noteq> CHR ''+'') s;
          build = dropWhile (\<lambda>c. c \<noteq> CHR ''+'') s;
          core = takeWhile (\<lambda>c. c \<noteq> CHR ''-'') main;
          pre = dropWhile (\<lambda>c. c \<noteq> CHR ''-'') main
      in semver_core core
         \<and> (if pre = [] then True
            else list_all prerelease_identifier (split_on (CHR ''.'') (tl pre)))
         \<and> (if build = [] then True
            else list_all build_identifier (split_on (CHR ''.'') (tl build))))"

section \<open>Collaborators, events and the state of a run\<close>

text \<open>
  The constants of the module.  The choice lists keep the values of the entries; the
  display names play no part in the logic.
\<close>

definition DEFAULT_CLI_HOME :: string where "DEFAULT_CLI_HOME = ''.imooc-cli''"
definition GIT_ROOT_DIR :: string where "GIT_ROOT_DIR = ''.git''"
definition GIT_SERVER_FILE :: string where "GIT_SERVER_FILE = ''.git_server''"
definition GIT_TOKEN_FILE :: string where "GIT_TOKEN_FILE = ''.git_token''"
definition GIT_LOGIN_FILE :: string where "GIT_LOGIN_FILE = ''.git_login''"
definition GIT_OWN_FILE :: string where "GIT_OWN_FILE = ''.git_own''"
definition GIT_IGNORE_FILE :: string where "GIT_IGNORE_FILE = ''.gitignore''"
definition REPO_OWNER_USER :: string where "REPO_OWNER_USER = ''user''"
definition REPO_OWNER_ORG :: string where "REPO_OWNER_ORG = ''org''"
definition GITHUB :: string where "GITHUB = ''github''"
definition GITEE :: string where "GITEE = ''gitee''"
definition VERSION_RELEASE :: string where "VERSION_RELEASE = ''release''"
definition VERSION_DEVELOP :: string where "VERSION_DEVELOP = ''dev''"
definition GIT_SERVER_TYPE :: "string list" where "GIT_SERVER_TYPE = [GITHUB, GITEE]"
definition GIT_OWNER_TYPE :: "string list" where
  "GIT_OWNER_TYPE = [REPO_OWNER_USER, REPO_OWNER_ORG]"
definition GIT_OWNER_TYPE_ONLY :: "string list" where
  "GIT_OWNER_TYPE_ONLY = [REPO_OWNER_USER]"

datatype server = Github | Gitee

text \<open>\<open>createGitServer\<close> (lines 59-66).\<close>

definition createGitServer :: "string \<Rightarrow> server option" where
  "createGitServer gitServer =
     (if gitServer = GITHUB then Some Github
      else if gitServer = GITEE then Some Gitee
      else None)"

text \<open>
  The errors a run can raise.  The source throws \<open>Error\<close> objects with Chinese
  messages; each is a constructor here, named as the spec names it.  \<open>TypeError\<close>
  is what JavaScript raises when a property of \<open>null\<close> or \<open>undefined\<close> is read, and
  \<open>Rejected msg\<close> is a promise of a collaborator rejected with an error whose
  \<open>message\<close> is \<open>msg\<close>.
\<close>

datatype error =
    HomeDirectoryUnavailable
  | IdentityResolutionFailed
  | RemoteRepoCreationFailed
  | UnresolvedConflict
  | SSHKeyMissing string string
  | TypeError
  | Rejected string

text \<open>The result of \<open>git.status()\<close>: the six lists the source reads.\<close>

record status =
  conflicted :: "string list"
  not_added :: "string list"
  created :: "string list"
  deleted :: "string list"
  modified :: "string list"
  renamed :: "(string \<times> string) list"

datatype file_ref = Path string | Renamed string string

text \<open>
  The levels the source logs at: \<open>log.verbose\<close>, \<open>log.notice\<close>, \<open>log.success\<close> and
  \<open>log.error\<close> (\<open>Failure\<close>).
\<close>

datatype level = Verbose | Notice | Success | Failure

datatype prompt = ListPrompt "string list" | PasswordPrompt | TextPrompt

text \<open>
  Every call out of the module is an event of the run's trace, with the arguments the
  source passes.  A log event keeps the level and the arguments; the Chinese text of
  a message is replaced by a short English gloss.
\<close>

datatype event =
    Log level "string list"
  | ConsoleLog string
  | EnsureDir string
  | ExistsSync string
  | Inquirer prompt
  | SpinnerStart
  | SpinnerStop
  | SetToken string
  | GetUser
  | GetOrgs
  | GetRepo "string option" string
  | CreateRepo string
  | CreateOrgRepo string "string option"
  | GitInit string
  | GitGetRemotes
  | GitAddRemote string "string option"
  | GitStatus
  | GitAdd "file_ref list"
  | GitCommit string
  | GitPull string string "(string \<times> string option) list"
  | GitPush string string
  | GitListRemote "string list"
  | GitBranchLocal
  | GitCheckout string
  | GitCheckoutLocalBranch string
  | GitStashList
  | GitStash "string list"

text \<open>
  The environment answers the calls.  An answer may depend on everything that happened
  before, so each oracle reads the trace up to and including the call it answers.
  A promise of the \<open>simple-git\<close> engine either fulfils or rejects with a message.
  The remote host client (\<open>Github.js\<close>, \<open>Gitee.js\<close>) is not part of the sources: its
  operations are taken with the signatures of the spec (a lookup gives a value or
  \<open>null\<close>) and its URLs and type name as functions of the platform.
  \<open>cwd\<close> is \<open>process.cwd()\<close>, \<open>userHome\<close> the home directory the \<open>user-home\<close> package
  gives and \<open>CLI_HOME\<close> the variable of that name in \<open>process.env\<close>.
\<close>

record env =
  cwd :: string
  userHome :: string
  CLI_HOME :: "string option"
  semver_valid :: "string \<Rightarrow> bool"
  existsSync :: "event list \<Rightarrow> bool"
  inquirer :: "event list \<Rightarrow> string"
  server_type :: "server \<Rightarrow> string"
  getTokenHelpUrl :: "server \<Rightarrow> string"
  getSSHKeysUrl :: "server \<Rightarrow> string"
  getSSHKeysHelpUrl :: "server \<Rightarrow> string"
  getRemote :: "server \<Rightarrow> string option \<Rightarrow> string \<Rightarrow> string"
  getUser :: "event list \<Rightarrow> string option"
  getOrgs :: "event list \<Rightarrow> string list"
  getRepo :: "event list \<Rightarrow> string option"
  createRepo :: "event list \<Rightarrow> string option"
  git_run :: "event list \<Rightarrow> string option"
  git_getRemotes :: "event list \<Rightarrow> string + string list"
  git_status :: "event list \<Rightarrow> string + status"
  git_listRemote :: "event list \<Rightarrow> string + string"
  git_branchLocal :: "event list \<Rightarrow> string + string list"
  git_stashList :: "event list \<Rightarrow> string + string list"

text \<open>
  The fields of a \<open>Git\<close> object, the cache and project files it reads and writes
  through \<open>readFile\<close> and \<open>writeFile\<close>, and the trace of its calls.  An identity is
  kept by its \<open>login\<close>, the only field the source reads.
\<close>

record git =
  name :: string
  version :: string
  dir :: string
  owner :: string
  login :: "string option"
  repo :: "string option"
  homePath :: "string option"
  refreshToken :: bool
  refreshOwner :: bool
  refreshServer :: bool
  gitServer :: "server option"
  prod_flag :: bool
  token :: "string option"
  user :: "string option"
  orgs :: "string list option"
  remote :: "string option"
  branch :: "string option"
  files :: "string \<Rightarrow> string option"
  events :: "event list"

text \<open>
  A step ends by returning, by throwing, or by \<open>process.exit\<close>; \<open>None\<close> is a step that
  never ends (the commit-message loop with an operator who never types a message).
\<close>

datatype 'a outcome = Return 'a git | Throw error git | Exit int git

type_synonym 'a action = "git \<Rightarrow> 'a outcome option"

definition andThen :: "'a action \<Rightarrow> ('a \<Rightarrow> 'b action) \<Rightarrow> 'b action" where
  "andThen m f g =
     (case m g of
        None \<Rightarrow> None
      | Some (Return x g') \<Rightarrow> f x g'
      | Some (Throw e g') \<Rightarrow> Some (Throw e g')
      | Some (Exit c g') \<Rightarrow> Some (Exit c g'))"

definition return :: "'a \<Rightarrow> 'a action" where
  "return x g = Some (Return x g)"

definition throw :: "error \<Rightarrow> 'a action" where
  "throw e g = Some (Throw e g)"

definition process_exit :: "int \<Rightarrow> 'a action" where
  "process_exit c g = Some (Exit c g)"

definition get :: "(git \<Rightarrow> 'a) \<Rightarrow> 'a action" where
  "get f g = Some (Return (f g) g)"

definition modify :: "(git \<Rightarrow> git) \<Rightarrow> unit action" where
  "modify f g = Some (Return () (f g))"

definition emit :: "event \<Rightarrow> unit action" where
  "emit e g = Some (Return () (g\<lparr>events := events g @ [e]\<rparr>))"

definition log_msg :: "level \<Rightarrow> string list \<Rightarrow> unit action" where
  "log_msg l args = emit (Log l args)"

text \<open>A call whose answer cannot fail (a prompt, a lookup of the host client).\<close>

definition ask :: "event \<Rightarrow> (event list \<Rightarrow> 'a) \<Rightarrow> 'a action" where
  "ask e oracle g =
     Some (Return (oracle (events g @ [e])) (g\<lparr>events := events g @ [e]\<rparr>))"

text \<open>An awaited promise of the git engine: a rejection is thrown.\<close>

definition await :: "event \<Rightarrow> (event list \<Rightarrow> string + 'a) \<Rightarrow> 'a action" where
  "await e oracle g =
     (case oracle (events g @ [e]) of
        Inl msg \<Rightarrow> Some (Throw (Rejected msg) (g\<lparr>events := events g @ [e]\<rparr>))
      | Inr v \<Rightarrow> Some (Return v (g\<lparr>events := events g @ [e]\<rparr>)))"

definition await_unit :: "event \<Rightarrow> (event list \<Rightarrow> string option) \<Rightarrow> unit action" where
  "await_unit e oracle g =
     (case oracle (events g @ [e]) of
        Some msg \<Rightarrow> Some (Throw (Rejected msg) (g\<lparr>events := events g @ [e]\<rparr>))
      | None \<Rightarrow> Some (Return () (g\<lparr>events := events g @ [e]\<rparr>)))"

text \<open>\<open>this.gitServer.m(...)\<close>: a \<open>TypeError\<close> when no client has been created.\<close>

definition with_server :: "(server \<Rightarrow> 'a action) \<Rightarrow> 'a action" where
  "with_server f g =
     (case gitServer g of None \<Rightarrow> Some (Throw TypeError g) | Some s \<Rightarrow> f s g)"

text \<open>
  Modelled from the spec: \<open>readFile\<close> and \<open>writeFile\<close> of \<open>../file\<close> are not part of the
  sources.  A read gives the value or \<open>null\<close> and has no side effect; a write
  overwrites unconditionally.
\<close>

definition readFile :: "string \<Rightarrow> string option action" where
  "readFile p = get (\<lambda>g. files g p)"

definition writeFile :: "string \<Rightarrow> string \<Rightarrow> unit action" where
  "writeFile p v = modify (\<lambda>g. g\<lparr>files := (files g)(p \<mapsto> v)\<rparr>)"

text \<open>How a template literal or \<open>+\<close> prints a value that may be \<open>undefined\<close>.\<close>

definition js_string :: "string option \<Rightarrow> string" where
  "js_string x = (case x of None \<Rightarrow> ''undefined'' | Some s \<Rightarrow> s)"

text \<open>The value of a string known to be truthy.\<close>

definition string_of :: "string option \<Rightarrow> string" where
  "string_of x = (case x of None \<Rightarrow> [] | Some s \<Rightarrow> s)"

section \<open>The methods of class \<open>Git\<close>\<close>

subsection \<open>Cache root and cached choices\<close>

text \<open>\<open>checkHomePath\<close> (lines 112-125).\<close>

definition checkHomePath :: "env \<Rightarrow> unit action" where
  "checkHomePath env =
     andThen (get homePath) (\<lambda>hp.
     andThen (if \<not> truthy hp
              then (if truthy (CLI_HOME env)
                    then modify (\<lambda>g. g\<lparr>homePath :=
                           Some (path_resolve (cwd env) [userHome env, string_of (CLI_HOME env)])\<rparr>)
                    else modify (\<lambda>g. g\<lparr>homePath :=
                           Some (path_resolve (cwd env) [userHome env, DEFAULT_CLI_HOME])\<rparr>))
              else return ()) (\<lambda>_.
     andThen (get homePath) (\<lambda>home.
     andThen (log_msg Verbose [''home'', js_string home]) (\<lambda>_.
     andThen (emit (EnsureDir (js_string home))) (\<lambda>_.
     andThen (ask (ExistsSync (js_string home)) (existsSync env)) (\<lambda>found.
       if \<not> found then throw HomeDirectoryUnavailable else return ()))))))"

text \<open>\<open>createPath\<close> (lines 128-133).\<close>

definition createPath :: "env \<Rightarrow> string \<Rightarrow> string action" where
  "createPath env file =
     andThen (get homePath) (\<lambda>hp.
       case hp of
         None \<Rightarrow> throw TypeError
       | Some h \<Rightarrow>
           andThen (emit (EnsureDir (path_resolve (cwd env) [h, GIT_ROOT_DIR]))) (\<lambda>_.
             return (path_resolve (cwd env) [path_resolve (cwd env) [h, GIT_ROOT_DIR], file])))"

text \<open>\<open>checkGitServer\<close> (lines 136-151).\<close>

definition checkGitServer :: "env \<Rightarrow> unit action" where
  "checkGitServer env =
     andThen (createPath env GIT_SERVER_FILE) (\<lambda>gitServerPath.
     andThen (readFile gitServerPath) (\<lambda>cached.
     andThen (get refreshServer) (\<lambda>refresh.
     andThen (if \<not> truthy cached \<or> refresh
              then
                andThen (ask (Inquirer (ListPrompt GIT_SERVER_TYPE)) (inquirer env)) (\<lambda>chosen.
                andThen (writeFile gitServerPath chosen) (\<lambda>_.
                andThen (log_msg Success
                           [''git server written'', chosen @ '' -> '' @ gitServerPath]) (\<lambda>_.
                  return chosen)))
              else
                andThen (log_msg Success [''git server read'', string_of cached]) (\<lambda>_.
                  return (string_of cached))) (\<lambda>chosen.
       modify (\<lambda>g. g\<lparr>gitServer := createGitServer chosen\<rparr>)))))"

text \<open>\<open>checkGitToken\<close> (lines 154-172).\<close>

definition checkGitToken :: "env \<Rightarrow> unit action" where
  "checkGitToken env =
     andThen (createPath env GIT_TOKEN_FILE) (\<lambda>tokenPath.
     andThen (readFile tokenPath) (\<lambda>cached.
     andThen (get refreshToken) (\<lambda>refresh.
     andThen (if \<not> truthy cached \<or> refresh
              then
                andThen (with_server (\<lambda>s. log_msg Notice
                           [server_type env s @ '' token missing'',
                            ''create a '' @ server_type env s @ '' token first: ''
                              @ getTokenHelpUrl env s])) (\<lambda>_.
                andThen (ask (Inquirer PasswordPrompt) (inquirer env)) (\<lambda>entered.
                andThen (writeFile tokenPath entered) (\<lambda>_.
                andThen (log_msg Success
                           [''token written'', entered @ '' -> '' @ tokenPath]) (\<lambda>_.
                  return entered))))
              else
                andThen (log_msg Verbose [''token'', string_of cached]) (\<lambda>_.
                andThen (log_msg Success [''token read'', tokenPath]) (\<lambda>_.
                  return (string_of cached)))) (\<lambda>tok.
     andThen (modify (\<lambda>g. g\<lparr>token := Some tok\<rparr>)) (\<lambda>_.
       with_server (\<lambda>s. emit (SetToken tok)))))))"

text \<open>\<open>checkUserAndOrgs\<close> (lines 175-182).\<close>

definition checkUserAndOrgs :: "env \<Rightarrow> unit action" where
  "checkUserAndOrgs env =
     andThen (with_server (\<lambda>s. ask GetUser (getUser env))) (\<lambda>u.
     andThen (modify (\<lambda>g. g\<lparr>user := u\<rparr>)) (\<lambda>_.
     andThen (with_server (\<lambda>s. ask GetOrgs (getOrgs env))) (\<lambda>os.
     andThen (modify (\<lambda>g. g\<lparr>orgs := Some os\<rparr>)) (\<lambda>_.
       if u = None then throw IdentityResolutionFailed
       else with_server (\<lambda>s. log_msg Success
              [server_type env s @ '' user and organisations fetched''])))))"

text \<open>\<open>checkGitOwner\<close> (lines 185-219).\<close>

definition checkGitOwner :: "env \<Rightarrow> unit action" where
  "checkGitOwner env =
     andThen (createPath env GIT_OWN_FILE) (\<lambda>ownerPath.
     andThen (createPath env GIT_LOGIN_FILE) (\<lambda>loginPath.
     andThen (readFile ownerPath) (\<lambda>cachedOwner.
     andThen (readFile loginPath) (\<lambda>cachedLogin.
     andThen (get refreshOwner) (\<lambda>refresh.
     andThen (if \<not> truthy cachedOwner \<or> \<not> truthy cachedLogin \<or> refresh
              then
                andThen (with_server (\<lambda>s. log_msg Notice
                           [server_type env s @ '' owner missing, choose an owner''])) (\<lambda>_.
                andThen (get orgs) (\<lambda>os.
                  case os of
                    None \<Rightarrow> throw TypeError
                  | Some organisations \<Rightarrow>
                andThen (ask (Inquirer (ListPrompt
                           (if length organisations > 0 then GIT_OWNER_TYPE
                            else GIT_OWNER_TYPE_ONLY))) (inquirer env)) (\<lambda>chosen.
                andThen (if chosen = REPO_OWNER_USER
                         then andThen (get user) (\<lambda>u.
                                case u of None \<Rightarrow> throw TypeError | Some l \<Rightarrow> return l)
                         else ask (Inquirer (ListPrompt organisations)) (inquirer env)) (\<lambda>l.
                andThen (writeFile ownerPath chosen) (\<lambda>_.
                andThen (writeFile loginPath l) (\<lambda>_.
                andThen (log_msg Success
                           [''git owner written'', chosen @ '' -> '' @ ownerPath]) (\<lambda>_.
                andThen (log_msg Success
                           [''git login written'', l @ '' -> '' @ loginPath]) (\<lambda>_.
                  return (chosen, l)))))))))
              else
                andThen (log_msg Success [''git owner read'', string_of cachedOwner]) (\<lambda>_.
                andThen (log_msg Success [''git login read'', string_of cachedLogin]) (\<lambda>_.
                  return (string_of cachedOwner, string_of cachedLogin)))) (\<lambda>(own, l).
       modify (\<lambda>g. g\<lparr>owner := own, login := Some l\<rparr>)))))))"

subsection \<open>Remote repository, ignore file\<close>

text \<open>
  \<open>checkRepo\<close> (lines 222-243).  The host client does not reject in this model, so
  the \<open>finally\<close> block is the next statement.
\<close>

definition checkRepo :: "env \<Rightarrow> unit action" where
  "checkRepo env =
     andThen (get login) (\<lambda>l.
     andThen (get name) (\<lambda>n.
     andThen (with_server (\<lambda>s. ask (GetRepo l n) (getRepo env))) (\<lambda>found.
     andThen (if found = None
              then
                andThen (emit SpinnerStart) (\<lambda>_.
                andThen (get owner) (\<lambda>own.
                andThen (if own = REPO_OWNER_USER
                         then with_server (\<lambda>s. ask (CreateRepo n) (createRepo env))
                         else with_server (\<lambda>s. ask (CreateOrgRepo n l) (createRepo env)))
                        (\<lambda>made.
                andThen (emit SpinnerStop) (\<lambda>_.
                  if made \<noteq> None
                  then andThen (log_msg Success [''remote repository created'']) (\<lambda>_.
                         return made)
                  else throw RemoteRepoCreationFailed))))
              else return found) (\<lambda>r.
     andThen (log_msg Success [''remote repository fetched'']) (\<lambda>_.
       modify (\<lambda>g. g\<lparr>repo := r\<rparr>))))))"

text \<open>\<open>checkGitIgnore\<close> (lines 246-274) and the text it writes.\<close>

definition default_gitignore :: string where
  "default_gitignore =
     concat (map (\<lambda>l. l @ [newline])
       [''.DS_Store'', ''node_modules'', ''/dist'', [], [],
        ''# local env files'', ''.env.local'', ''.env.*.local'', [],
        ''# Log files'', ''npm-debug.log*'', ''yarn-debug.log*'', ''yarn-error.log*'',
        ''pnpm-debug.log*'', [],
        ''# Editor directories and files'', ''.idea'', ''.vscode'', ''*.suo'', ''*.ntvs*'',
        ''*.njsproj'', ''*.sln'']) @ ''*.sw?''"

definition checkGitIgnore :: "env \<Rightarrow> unit action" where
  "checkGitIgnore env =
     andThen (get dir) (\<lambda>d.
     andThen (readFile (path_resolve (cwd env) [d, GIT_IGNORE_FILE])) (\<lambda>present.
       if present = None
       then andThen (writeFile (path_resolve (cwd env) [d, GIT_IGNORE_FILE]) default_gitignore) (\<lambda>_.
              log_msg Success [''.gitignore written''])
       else return ()))"

subsection \<open>Conflict and staging checks\<close>

text \<open>\<open>checkConflicted\<close> (lines 310-317).\<close>

definition checkConflicted :: "env \<Rightarrow> unit action" where
  "checkConflicted env =
     andThen (log_msg Notice [''checking for conflicts'']) (\<lambda>_.
     andThen (await GitStatus (git_status env)) (\<lambda>st.
       if length (conflicted st) > 0 then throw UnresolvedConflict
       else log_msg Success [''no conflicts'']))"

text \<open>
  The loop \<open>while (!message) { message = await inquirer(...) }\<close>: one prompt per
  round, left only by an answer that is not empty.
\<close>

partial_function (option) promptCommitMessage :: "env \<Rightarrow> git \<Rightarrow> string outcome option" where
  "promptCommitMessage env g =
     (if inquirer env (events g @ [Inquirer TextPrompt]) = []
      then promptCommitMessage env (g\<lparr>events := events g @ [Inquirer TextPrompt]\<rparr>)
      else Some (Return (inquirer env (events g @ [Inquirer TextPrompt]))
                        (g\<lparr>events := events g @ [Inquirer TextPrompt]\<rparr>)))"

declare promptCommitMessage.simps [code]

text \<open>\<open>checkNotCommitted\<close> (lines 319-343).\<close>

definition checkNotCommitted :: "env \<Rightarrow> unit action" where
  "checkNotCommitted env =
     andThen (await GitStatus (git_status env)) (\<lambda>st.
       if length (not_added st) > 0 \<or> length (created st) > 0 \<or> length (deleted st) > 0
          \<or> length (modified st) > 0 \<or> length (renamed st) > 0
       then
         andThen (log_msg Verbose [''status'']) (\<lambda>_.
         andThen (await_unit (GitAdd (map Path (not_added st))) (git_run env)) (\<lambda>_.
         andThen (await_unit (GitAdd (map Path (created st))) (git_run env)) (\<lambda>_.
         andThen (await_unit (GitAdd (map Path (deleted st))) (git_run env)) (\<lambda>_.
         andThen (await_unit (GitAdd (map Path (modified st))) (git_run env)) (\<lambda>_.
         andThen (await_unit (GitAdd (map (\<lambda>(a, b). Renamed a b) (renamed st)))
                    (git_run env)) (\<lambda>_.
         andThen (promptCommitMessage env) (\<lambda>message.
         andThen (await_unit (GitCommit message) (git_run env)) (\<lambda>_.
           log_msg Success [''local commit done'']))))))))
       else return ())"

subsection \<open>Pull and push\<close>

text \<open>
  \<open>pullRemoteRepo\<close> (lines 345-357).  The handler of \<open>catch\<close> runs on a rejected
  pull: it throws in the first branch, and otherwise logs and reaches
  \<open>process.exit(0)\<close>.
\<close>

definition pullRemoteRepo ::
  "env \<Rightarrow> string \<Rightarrow> (string \<times> string option) list \<Rightarrow> unit action" where
  "pullRemoteRepo env branchName options =
     andThen (log_msg Notice [''sync remote branch '' @ branchName]) (\<lambda>_.
     andThen (ask (GitPull ''origin'' branchName options) (git_run env)) (\<lambda>rejected.
       case rejected of
         None \<Rightarrow> return ()
       | Some message \<Rightarrow>
           andThen (if string_indexOf message ''Permission denied (publickey)'' \<ge> 0
                    then with_server (\<lambda>s.
                           throw (SSHKeyMissing (getSSHKeysUrl env s) (getSSHKeysHelpUrl env s)))
                    else if string_indexOf message (''Couldn't find remote ref '' @ branchName) \<ge> 0
                    then log_msg Notice [''fetching remote ['' @ branchName @ ''] failed'']
                    else log_msg Failure [message]) (\<lambda>_.
             process_exit 0)))"

text \<open>\<open>pushRemoteRepo\<close> (lines 359-363).\<close>

definition pushRemoteRepo :: "env \<Rightarrow> string \<Rightarrow> unit action" where
  "pushRemoteRepo env branchName =
     andThen (log_msg Notice [''push to remote branch '' @ branchName]) (\<lambda>_.
     andThen (await_unit (GitPush ''origin'' branchName) (git_run env)) (\<lambda>_.
       log_msg Success [''push done'']))"

text \<open>\<open>checkRemoteMaster\<close> (lines 306-308).\<close>

definition checkRemoteMaster :: "env \<Rightarrow> bool action" where
  "checkRemoteMaster env =
     andThen (await (GitListRemote [''--refs'']) (git_listRemote env)) (\<lambda>remoteList.
       return (string_indexOf remoteList ''refs/heads/master'' \<ge> 0))"

text \<open>\<open>initCommit\<close> (lines 295-304).\<close>

definition initCommit :: "env \<Rightarrow> unit action" where
  "initCommit env =
     andThen (checkConflicted env) (\<lambda>_.
     andThen (checkNotCommitted env) (\<lambda>_.
     andThen (checkRemoteMaster env) (\<lambda>hasMaster.
       if hasMaster
       then andThen (log_msg Notice [''remote master exists, forcing a merge'']) (\<lambda>_.
              pullRemoteRepo env ''master'' [(''--allow-unrelated-histories'', None)])
       else pushRemoteRepo env ''master'')))"

text \<open>\<open>init\<close> (lines 277-293).\<close>

definition init :: "env \<Rightarrow> unit action" where
  "init env =
     andThen (get dir) (\<lambda>d.
     andThen (get login) (\<lambda>l.
     andThen (get name) (\<lambda>n.
     andThen (with_server (\<lambda>s. modify (\<lambda>g. g\<lparr>remote := Some (getRemote env s l n)\<rparr>))) (\<lambda>_.
     andThen (ask (ExistsSync (path_resolve (cwd env) [d, GIT_ROOT_DIR])) (existsSync env)) (\<lambda>found.
       if found then log_msg Success [''git already initialised'']
       else
         andThen (log_msg Notice [''running git init'']) (\<lambda>_.
         andThen (await_unit (GitInit d) (git_run env)) (\<lambda>_.
         andThen (log_msg Notice [''adding git remote'']) (\<lambda>_.
         andThen (await GitGetRemotes (git_getRemotes env)) (\<lambda>remotes.
         andThen (log_msg Verbose [''git remotes'']) (\<lambda>_.
         andThen (if find (\<lambda>item. item = ''origin'') remotes = None
                  then andThen (get remote) (\<lambda>r.
                         await_unit (GitAddRemote ''origin'' r) (git_run env))
                  else return ()) (\<lambda>_.
           initCommit env)))))))))))"

subsection \<open>Branch resolution\<close>

text \<open>The literal of the expression \<open>getRemoteBranchList\<close> picks for a channel.\<close>

definition reg_literal :: "string option \<Rightarrow> string" where
  "reg_literal type = (if type = Some VERSION_RELEASE then ''refs/tags/release/''
                       else ''refs/heads/dev/'')"

text \<open>
  \<open>remoteList.split('\n').map(remote => ...)\<close>: one \<open>exec\<close> per line, all on the same
  expression object, so \<open>lastIndex\<close> is carried from each line to the next.
\<close>

fun map_exec :: "(string \<Rightarrow> bool) \<Rightarrow> string \<Rightarrow> nat \<Rightarrow> string list \<Rightarrow> string option list" where
  "map_exec valid lit lastIndex [] = []"
| "map_exec valid lit lastIndex (line # rest) =
     (case regexp_exec lit lastIndex line of
        (None, lastIndex') \<Rightarrow> None # map_exec valid lit lastIndex' rest
      | (Some v, lastIndex') \<Rightarrow>
          (if valid v then Some v else None) # map_exec valid lit lastIndex' rest)"

text \<open>\<open>.filter(_ => _)\<close>: the truthy entries.\<close>

definition filter_truthy :: "string option list \<Rightarrow> string list" where
  "filter_truthy xs = map string_of (filter truthy xs)"

text \<open>\<open>getRemoteBranchList\<close> (lines 375-392).\<close>

definition getRemoteBranchList :: "env \<Rightarrow> string option \<Rightarrow> string list action" where
  "getRemoteBranchList env type =
     andThen (await (GitListRemote [''--refs'']) (git_listRemote env)) (\<lambda>remoteList.
     andThen (emit (ConsoleLog remoteList)) (\<lambda>_.
       return (filter_truthy
         (map_exec (semver_valid env) (reg_literal type) 0 (split_on newline remoteList)))))"

text \<open>\<open>getCorrectVersion\<close> (lines 365-373).\<close>

definition getCorrectVersion :: "env \<Rightarrow> string option \<Rightarrow> unit action" where
  "getCorrectVersion env type =
     andThen (log_msg Notice [''resolving the branch'']) (\<lambda>_.
     andThen (getRemoteBranchList env type) (\<lambda>remoteBranchList.
     andThen (modify (\<lambda>g. g\<lparr>branch :=
                Some ((if truthy type then string_of type else VERSION_DEVELOP)
                      @ ''/'' @ version g)\<rparr>)) (\<lambda>_.
     andThen (get branch) (\<lambda>b.
       log_msg Success [''branch resolved '' @ js_string b]))))"

text \<open>\<open>checkoutBranch\<close> (lines 394-402).\<close>

definition checkoutBranch :: "env \<Rightarrow> unit action" where
  "checkoutBranch env =
     andThen (await GitBranchLocal (git_branchLocal env)) (\<lambda>localBranchList.
     andThen (get branch) (\<lambda>b.
     andThen (if array_indexOf (map Some localBranchList) b \<ge> 0
              then await_unit (GitCheckout (js_string b)) (git_run env)
              else await_unit (GitCheckoutLocalBranch (js_string b)) (git_run env)) (\<lambda>_.
       log_msg Success [''switched to branch '' @ js_string b])))"

text \<open>\<open>checkStash\<close> (lines 404-411).\<close>

definition checkStash :: "env \<Rightarrow> unit action" where
  "checkStash env =
     andThen (log_msg Notice [''checking the stash'']) (\<lambda>_.
     andThen (await GitStashList (git_stashList env)) (\<lambda>stashList.
       if length stashList > 0
       then andThen (await_unit (GitStash [''pop'']) (git_run env)) (\<lambda>_.
              log_msg Success [''stash pop done''])
       else return ()))"

subsection \<open>The public operations\<close>

text \<open>\<open>pullRemoteMasterAndBranch\<close> (lines 413-428).\<close>

definition pullRemoteMasterAndBranch :: "env \<Rightarrow> unit action" where
  "pullRemoteMasterAndBranch env =
     andThen (get branch) (\<lambda>b.
     andThen (get version) (\<lambda>v.
     andThen (log_msg Notice [''merge [master] -> ['' @ js_string b @ '']'']) (\<lambda>_.
     andThen (pullRemoteRepo env ''master'' []) (\<lambda>_.
     andThen (log_msg Success [''remote [master] merged'']) (\<lambda>_.
     andThen (checkConflicted env) (\<lambda>_.
     andThen (log_msg Notice [''checking the remote branch'']) (\<lambda>_.
     andThen (getRemoteBranchList env None) (\<lambda>remoteBranchList.
       if array_indexOf remoteBranchList v \<ge> 0
       then
         andThen (log_msg Notice
                    [''merge ['' @ js_string b @ ''] -> ['' @ js_string b @ '']'']) (\<lambda>_.
         andThen (pullRemoteRepo env (js_string b) []) (\<lambda>_.
         andThen (log_msg Success [''remote ['' @ js_string b @ ''] merged'']) (\<lambda>_.
           checkConflicted env)))
       else log_msg Success [''no remote branch ['' @ js_string b @ '']'']))))))))"

text \<open>\<open>commit\<close> (lines 431-439).\<close>

definition commit :: "env \<Rightarrow> unit action" where
  "commit env =
     andThen (getCorrectVersion env None) (\<lambda>_.
     andThen (checkStash env) (\<lambda>_.
     andThen (checkConflicted env) (\<lambda>_.
     andThen (checkNotCommitted env) (\<lambda>_.
     andThen (checkoutBranch env) (\<lambda>_.
     andThen (pullRemoteMasterAndBranch env) (\<lambda>_.
     andThen (get branch) (\<lambda>b.
       pushRemoteRepo env (js_string b))))))))"

text \<open>\<open>prepare\<close> (lines 100-109).\<close>

definition prepare :: "env \<Rightarrow> unit action" where
  "prepare env =
     andThen (checkHomePath env) (\<lambda>_.
     andThen (checkGitServer env) (\<lambda>_.
     andThen (checkGitToken env) (\<lambda>_.
     andThen (checkUserAndOrgs env) (\<lambda>_.
     andThen (checkGitOwner env) (\<lambda>_.
     andThen (checkRepo env) (\<lambda>_.
     andThen (checkGitIgnore env) (\<lambda>_.
       init env)))))))"

section \<open>Reading a run, and worked examples\<close>

text \<open>The state a step ends in, the value it returns, and the calls it added.\<close>

definition state_of :: "'a outcome \<Rightarrow> git" where
  "state_of r = (case r of Return x g \<Rightarrow> g | Throw e g \<Rightarrow> g | Exit c g \<Rightarrow> g)"

definition returned :: "'a outcome option \<Rightarrow> 'a option" where
  "returned r = (case r of Some (Return x g) \<Rightarrow> Some x | _ \<Rightarrow> None)"

definition new_events :: "git \<Rightarrow> 'a outcome option \<Rightarrow> event list" where
  "new_events g r =
     (case r of None \<Rightarrow> [] | Some out \<Rightarrow> drop (length (events g)) (events (state_of out)))"

text \<open>The calls to the git engine among the events of a trace.\<close>

fun is_git_call :: "event \<Rightarrow> bool" where
  "is_git_call (GitInit d) = True"
| "is_git_call GitGetRemotes = True"
| "is_git_call (GitAddRemote n r) = True"
| "is_git_call GitStatus = True"
| "is_git_call (GitAdd ps) = True"
| "is_git_call (GitCommit m) = True"
| "is_git_call (GitPull r b opts) = True"
| "is_git_call (GitPush r b) = True"
| "is_git_call (GitListRemote args) = True"
| "is_git_call GitBranchLocal = True"
| "is_git_call (GitCheckout b) = True"
| "is_git_call (GitCheckoutLocalBranch b) = True"
| "is_git_call GitStashList = True"
| "is_git_call (GitStash args) = True"
| "is_git_call e = False"

definition git_calls :: "event list \<Rightarrow> event list" where
  "git_calls tr = filter is_git_call tr"

fun is_prompt :: "event \<Rightarrow> bool" where
  "is_prompt (Inquirer p) = True"
| "is_prompt e = False"

definition prompts :: "event list \<Rightarrow> event list" where
  "prompts tr = filter is_prompt tr"

text \<open>The cache root \<open>checkHomePath\<close> settles on, and the four cache files under it.\<close>

definition home_of :: "env \<Rightarrow> string option \<Rightarrow> string" where
  "home_of env hp =
     (if truthy hp then string_of hp
      else if truthy (CLI_HOME env)
      then path_resolve (cwd env) [userHome env, string_of (CLI_HOME env)]
      else path_resolve (cwd env) [userHome env, DEFAULT_CLI_HOME])"

definition cache_file :: "string \<Rightarrow> string \<Rightarrow> string \<Rightarrow> string" where
  "cache_file workdir h file = path_resolve workdir [path_resolve workdir [h, GIT_ROOT_DIR], file]"

text \<open>
  The constructor: the fields of a new \<open>Git\<close> object, over the files \<open>fs\<close> found on
  disk.  Fields the constructor does not assign are \<open>undefined\<close>.
\<close>

definition new_Git ::
  "string \<Rightarrow> string \<Rightarrow> string \<Rightarrow> string option \<Rightarrow> bool \<Rightarrow> bool \<Rightarrow> bool \<Rightarrow> bool
     \<Rightarrow> (string \<Rightarrow> string option) \<Rightarrow> git" where
  "new_Git d n v cliHome rToken rOwner rServer p fs =
     \<lparr>name = n, version = v, dir = d, owner = REPO_OWNER_USER, login = None, repo = None,
      homePath = cliHome, refreshToken = rToken, refreshOwner = rOwner,
      refreshServer = rServer, gitServer = None, prod_flag = p, token = None, user = None,
      orgs = None, remote = None, branch = None, files = fs, events = []\<rparr>"

text \<open>
  An operator who picks the first entry of a list, types a token when asked for one
  and a message when asked for one.
\<close>

definition operator :: "event list \<Rightarrow> string" where
  "operator tr =
     (case rev tr of
        Inquirer (ListPrompt (c # cs)) # earlier \<Rightarrow> c
      | Inquirer PasswordPrompt # earlier \<Rightarrow> ''s3cret''
      | Inquirer TextPrompt # earlier \<Rightarrow> ''first commit''
      | _ \<Rightarrow> [])"

text \<open>
  An environment in which every call succeeds: a clean working tree, an empty remote,
  an account with no organisation.
\<close>

definition clean_status :: status where
  "clean_status = \<lparr>conflicted = [], not_added = [], created = [], deleted = [],
                    modified = [], renamed = []\<rparr>"

definition calm_env :: env where
  "calm_env =
     \<lparr>cwd = ''/work/app'', userHome = ''/home/dev'', CLI_HOME = None,
      semver_valid = semver2_valid,
      existsSync = (\<lambda>tr. True), inquirer = operator,
      server_type = (\<lambda>s. case s of Github \<Rightarrow> ''github'' | Gitee \<Rightarrow> ''gitee''),
      getTokenHelpUrl = (\<lambda>s. ''https://example.org/token''),
      getSSHKeysUrl = (\<lambda>s. ''https://example.org/keys''),
      getSSHKeysHelpUrl = (\<lambda>s. ''https://example.org/keys-help''),
      getRemote = (\<lambda>s l n. ''git@example.org:'' @ js_string l @ ''/'' @ n @ ''.git''),
      getUser = (\<lambda>tr. Some ''alice''), getOrgs = (\<lambda>tr. []),
      getRepo = (\<lambda>tr. Some ''app''), createRepo = (\<lambda>tr. Some ''app''),
      git_run = (\<lambda>tr. None), git_getRemotes = (\<lambda>tr. Inr []),
      git_status = (\<lambda>tr. Inr clean_status), git_listRemote = (\<lambda>tr. Inr []),
      git_branchLocal = (\<lambda>tr. Inr [''master'']), git_stashList = (\<lambda>tr. Inr [])\<rparr>"

definition fresh_git :: git where
  "fresh_git = new_Git ''/work/app'' ''app'' ''1.0.0'' None False False False False Map.empty"

text \<open>Lines of \<open>git ls-remote --refs\<close>: an object name, a tab, a ref.\<close>

definition ref_line :: "string \<Rightarrow> string \<Rightarrow> string" where
  "ref_line sha ref = sha @ [tab] @ ref"

definition sha_a :: string where "sha_a = ''1f0c3a5b7d9e2f4a6c8b0d1e3f5a7b9c1d3e5f70''"
definition sha_b :: string where "sha_b = ''2a4c6e8f0b1d3f5a7c9e1b3d5f7a9c0e2b4d6f81''"

definition two_dev_refs :: string where
  "two_dev_refs = ref_line sha_a ''refs/heads/dev/1.0.0'' @ [newline]
                  @ ref_line sha_b ''refs/heads/dev/2.0.0''"

definition dev_and_junk_refs :: string where
  "dev_and_junk_refs = ref_line sha_a ''refs/heads/dev/1.0.0'' @ [newline]
                       @ ref_line sha_b ''refs/heads/dev/x.y.z''"


text \<open>
  A status with nothing to stage, and the calls that stage the five lists of a status
  in the order \<open>checkNotCommitted\<close> makes them.
\<close>

definition nothing_pending :: "status \<Rightarrow> bool" where
  "nothing_pending st =
     (not_added st = [] \<and> created st = [] \<and> deleted st = [] \<and> modified st = []
      \<and> renamed st = [])"

definition staging :: "status \<Rightarrow> event list" where
  "staging st =
     [GitStatus, Log Verbose [''status''],
      GitAdd (map Path (not_added st)), GitAdd (map Path (created st)),
      GitAdd (map Path (deleted st)), GitAdd (map Path (modified st)),
      GitAdd (map (\<lambda>(a, b). Renamed a b) (renamed st))]"

text \<open>The branch a call to the git engine names, if it names one.\<close>

fun branch_of_call :: "event \<Rightarrow> string option" where
  "branch_of_call (GitPull r b opts) = Some b"
| "branch_of_call (GitPush r b) = Some b"
| "branch_of_call (GitCheckout b) = Some b"
| "branch_of_call (GitCheckoutLocalBranch b) = Some b"
| "branch_of_call e = None"

text \<open>
  A working tree with two pending changes, and an operator who gives the empty
  message twice before typing one.
\<close>

definition pending_status :: status where
  "pending_status = clean_status\<lparr>not_added := [''notes.txt''], modified := [''src/a.js'']\<rparr>"

definition hesitant_operator :: "event list \<Rightarrow> string" where
  "hesitant_operator tr = (if length (prompts tr) < 3 then [] else ''fix typo'')"

text \<open>The context a run of \<open>prepare\<close> resolves: platform client, token, owner kind, login.\<close>

definition resolved_context :: "git \<Rightarrow> server option \<times> string option \<times> string \<times> string option" where
  "resolved_context g = (gitServer g, token g, owner g, login g)"

text \<open>The fields that the steps after the ownership step leave as they are.\<close>

definition kept ::
  "git \<Rightarrow> (string \<Rightarrow> string option) \<times> string option \<times> string
          \<times> server option \<times> string option \<times> string \<times> string option" where
  "kept g = (files g, homePath g, dir g, gitServer g, token g, owner g, login g)"

section \<open>Facts about the strings, the steps and the trace\<close>

subsection \<open>Substrings, \<open>indexOf\<close> and the regular expression\<close>


lemma string_indexOf_nonneg_iff: "(string_indexOf s sub \<ge> 0) = sublist sub s"
proof (induction s)
  case Nil
  then show ?case by simp
next
  case (Cons c cs)
  then show ?case
    by (auto simp: sublist_Cons_right Let_def)
qed

lemma array_indexOf_nonneg_iff: "(array_indexOf xs x \<ge> 0) = (x \<in> set xs)"
  by (induction xs) (auto simp: Let_def)

lemma match_version_prefix: "match_version s = Some v \<Longrightarrow> prefix v s"
proof -
  assume h: "match_version s = Some v"
  have id: "\<And>xs. takeWhile is_digit xs @ dropWhile is_digit xs = xs" by simp
  from h obtain t1 t2 where
    r1: "dropWhile is_digit s = CHR ''.'' # t1" and
    r2: "dropWhile is_digit t1 = CHR ''.'' # t2" and
    v: "v = takeWhile is_digit s @ ''.'' @ takeWhile is_digit t1 @ ''.'' @ takeWhile is_digit t2"
    by (auto simp: match_version_def Let_def split: if_splits list.splits)
  have "s = takeWhile is_digit s @ CHR ''.'' # t1" using id[of s] r1 by simp
  moreover have "t1 = takeWhile is_digit t1 @ CHR ''.'' # t2" using id[of t1] r2 by simp
  moreover have "t2 = takeWhile is_digit t2 @ dropWhile is_digit t2" by simp
  ultimately have "s = v @ dropWhile is_digit t2"
    using v by (metis append.assoc append_Cons append_Nil)
  then show ?thesis by (metis prefixI)
qed

lemma match_here_sublist: "match_here lit s = Some (v, n) \<Longrightarrow> sublist (lit @ v) s"
proof (induction s arbitrary: n)
  case Nil
  then show ?case by simp
next
  case (Cons c cs)
  show ?case
  proof (cases "prefix lit cs \<and> match_version (drop (length lit) cs) \<noteq> None")
    case True
    then obtain w where w: "match_version (drop (length lit) cs) = Some w" and p: "prefix lit cs"
      by auto
    with Cons.prems have "w = v" by (auto split: if_splits)
    from p obtain r where r: "cs = lit @ r" by (auto simp: prefix_def)
    with w have "prefix w r" by (auto dest: match_version_prefix)
    then obtain q where "r = w @ q" by (auto simp: prefix_def)
    with r \<open>w = v\<close> have "c # cs = [c] @ (lit @ v) @ q" by simp
    then show ?thesis unfolding sublist_def by blast
  next
    case False
    with Cons.prems obtain m where "match_here lit cs = Some (v, m)"
      by (auto split: if_splits option.splits)
    then have "sublist (lit @ v) cs" by (rule Cons.IH)
    then show ?thesis by (simp add: sublist_Cons_right)
  qed
qed

lemma search_sublist: "search lit s = Some (v, e) \<Longrightarrow> sublist (lit @ v) s"
proof (induction s arbitrary: e)
  case Nil
  then show ?case by simp
next
  case (Cons c cs)
  then show ?case
    by (auto split: option.splits simp: sublist_Cons_right dest: match_here_sublist simp del: match_here.simps)
qed

lemma regexp_exec_sublist: "regexp_exec lit i s = (Some v, j) \<Longrightarrow> sublist (lit @ v) s"
proof -
  assume "regexp_exec lit i s = (Some v, j)"
  then obtain e where "search lit (drop i s) = Some (v, e)"
    by (auto simp: regexp_exec_def split: if_splits option.splits)
  then have "sublist (lit @ v) (drop i s)" by (rule search_sublist)
  then show ?thesis by (meson sublist_drop sublist_order.order_trans)
qed

lemma map_exec_sound:
  "Some v \<in> set (map_exec valid lit i ls) \<Longrightarrow> valid v \<and> (\<exists>l \<in> set ls. sublist (lit @ v) l)"
proof (induction ls arbitrary: i)
  case Nil
  then show ?case by simp
next
  case (Cons l ls)
  obtain r j where ex: "regexp_exec lit i l = (r, j)" by (cases "regexp_exec lit i l")
  show ?case
  proof (cases "Some v \<in> set (map_exec valid lit j ls)")
    case True
    then show ?thesis using Cons.IH by auto
  next
    case False
    with Cons.prems ex have "r = Some v \<and> valid v"
      by (cases r) (auto split: if_splits)
    with ex show ?thesis by (auto dest: regexp_exec_sublist)
  qed
qed

lemma split_on_nonempty: "split_on sep s \<noteq> []"
  by (cases s) (auto split: list.splits)

lemma split_on_hd_prefix: "prefix (hd (split_on sep s)) s"
  by (induction s) (auto split: list.splits)

lemma split_on_sublist: "l \<in> set (split_on sep s) \<Longrightarrow> sublist l s"
proof (induction s arbitrary: l)
  case Nil
  then show ?case by simp
next
  case (Cons c cs)
  obtain h t where ht: "split_on sep cs = h # t"
    using split_on_nonempty[of sep cs] by (cases "split_on sep cs") auto
  show ?case
  proof (cases "c = sep")
    case True
    with Cons show ?thesis by (auto simp: sublist_Cons_right)
  next
    case False
    with Cons.prems ht have "l = c # h \<or> l \<in> set t" by auto
    then show ?thesis
    proof
      assume l: "l = c # h"
      have "prefix h cs" using split_on_hd_prefix[of sep cs] ht by simp
      then show ?thesis using l by (simp add: sublist_Cons_right)
    next
      assume "l \<in> set t"
      then show ?thesis using Cons.IH ht by (simp add: sublist_Cons_right)
    qed
  qed
qed


subsection \<open>Running the primitives of a step\<close>

lemma andThen_return [simp]: "andThen (return x) f g = f x g"
  by (simp add: andThen_def return_def)

lemma andThen_throw [simp]: "andThen (throw e) f g = Some (Throw e g)"
  by (simp add: andThen_def throw_def)

lemma andThen_process_exit [simp]: "andThen (process_exit c) f g = Some (Exit c g)"
  by (simp add: andThen_def process_exit_def)

lemma andThen_get [simp]: "andThen (get h) f g = f (h g) g"
  by (simp add: andThen_def get_def)

lemma andThen_modify [simp]: "andThen (modify h) f g = f () (h g)"
  by (simp add: andThen_def modify_def)

lemma andThen_emit [simp]: "andThen (emit e) f g = f () (g\<lparr>events := events g @ [e]\<rparr>)"
  by (simp add: andThen_def emit_def)

lemma andThen_log_msg [simp]:
  "andThen (log_msg l args) f g = f () (g\<lparr>events := events g @ [Log l args]\<rparr>)"
  by (simp add: log_msg_def)

lemma andThen_ask [simp]:
  "andThen (ask e oracle) f g = f (oracle (events g @ [e])) (g\<lparr>events := events g @ [e]\<rparr>)"
  by (simp add: andThen_def ask_def)

lemma andThen_await [simp]:
  "andThen (await e oracle) f g =
     (case oracle (events g @ [e]) of
        Inl msg \<Rightarrow> Some (Throw (Rejected msg) (g\<lparr>events := events g @ [e]\<rparr>))
      | Inr v \<Rightarrow> f v (g\<lparr>events := events g @ [e]\<rparr>))"
  by (simp add: andThen_def await_def split: sum.splits)

lemma andThen_await_unit [simp]:
  "andThen (await_unit e oracle) f g =
     (case oracle (events g @ [e]) of
        Some msg \<Rightarrow> Some (Throw (Rejected msg) (g\<lparr>events := events g @ [e]\<rparr>))
      | None \<Rightarrow> f () (g\<lparr>events := events g @ [e]\<rparr>))"
  by (simp add: andThen_def await_unit_def split: option.splits)

lemma andThen_with_server [simp]:
  "andThen (with_server h) f g =
     (case gitServer g of None \<Rightarrow> Some (Throw TypeError g) | Some s \<Rightarrow> andThen (h s) f g)"
  by (simp add: andThen_def with_server_def split: option.splits)

lemma andThen_writeFile [simp]:
  "andThen (writeFile p v) f g = f () (g\<lparr>files := (files g)(p \<mapsto> v)\<rparr>)"
  by (simp add: writeFile_def)

lemma andThen_readFile [simp]: "andThen (readFile p) f g = f (files g p) g"
  by (simp add: readFile_def)

lemma log_msg_apply [simp]:
  "log_msg l args g = Some (Return () (g\<lparr>events := events g @ [Log l args]\<rparr>))"
  by (simp add: log_msg_def emit_def)

lemma return_apply [simp]: "return x g = Some (Return x g)"
  by (simp add: return_def)

lemma throw_apply [simp]: "throw e g = Some (Throw e g)"
  by (simp add: throw_def)

lemma process_exit_apply [simp]: "process_exit c g = Some (Exit c g)"
  by (simp add: process_exit_def)

lemma await_unit_apply [simp]:
  "await_unit e oracle g =
     (case oracle (events g @ [e]) of
        Some msg \<Rightarrow> Some (Throw (Rejected msg) (g\<lparr>events := events g @ [e]\<rparr>))
      | None \<Rightarrow> Some (Return () (g\<lparr>events := events g @ [e]\<rparr>)))"
  by (simp add: await_unit_def)

lemma emit_apply [simp]: "emit e g = Some (Return () (g\<lparr>events := events g @ [e]\<rparr>))"
  by (simp add: emit_def)

lemma ask_apply [simp]:
  "ask e oracle g = Some (Return (oracle (events g @ [e])) (g\<lparr>events := events g @ [e]\<rparr>))"
  by (simp add: ask_def)

lemma await_apply [simp]:
  "await e oracle g =
     (case oracle (events g @ [e]) of
        Inl msg \<Rightarrow> Some (Throw (Rejected msg) (g\<lparr>events := events g @ [e]\<rparr>))
      | Inr v \<Rightarrow> Some (Return v (g\<lparr>events := events g @ [e]\<rparr>)))"
  by (simp add: await_def)

lemma modify_apply [simp]: "modify h g = Some (Return () (h g))"
  by (simp add: modify_def)

lemma with_server_apply [simp]:
  "with_server h g = (case gitServer g of None \<Rightarrow> Some (Throw TypeError g) | Some s \<Rightarrow> h s g)"
  by (simp add: with_server_def)

lemma andThen_andThen [simp]:
  "andThen (andThen m f) h g = andThen m (\<lambda>x. andThen (f x) h) g"
  by (simp add: andThen_def split: option.splits outcome.splits)

lemma andThen_eq_Return:
  "(andThen m f g = Some (Return y g'')) =
     (\<exists>x g'. m g = Some (Return x g') \<and> f x g' = Some (Return y g''))"
  by (auto simp: andThen_def split: option.splits outcome.splits)

lemma get_apply [simp]: "get h g = Some (Return (h g) g)"
  by (simp add: get_def)

lemma git_calls_append [simp]: "git_calls (xs @ ys) = git_calls xs @ git_calls ys"
  by (simp add: git_calls_def)

lemma git_calls_Nil [simp]: "git_calls [] = []"
  by (simp add: git_calls_def)

lemma git_calls_Cons [simp]:
  "git_calls (e # es) = (if is_git_call e then e # git_calls es else git_calls es)"
  by (simp add: git_calls_def)

lemma git_calls_replicate_prompt [simp]: "git_calls (replicate k (Inquirer p)) = []"
  by (induction k) simp_all

subsection \<open>The commit-message loop\<close>

lemma replicate_snoc: "replicate k x @ [x] = x # replicate k x"
  by (induction k) simp_all

lemma promptCommitMessage_skip:
  "(\<And>j. j < k \<Longrightarrow> inquirer env (events g @ replicate (Suc j) (Inquirer TextPrompt)) = [])
   \<Longrightarrow> promptCommitMessage env g
       = promptCommitMessage env (g\<lparr>events := events g @ replicate k (Inquirer TextPrompt)\<rparr>)"
proof (induction k arbitrary: g)
  case 0
  then show ?case by simp
next
  case (Suc k)
  let ?g1 = "g\<lparr>events := events g @ [Inquirer TextPrompt]\<rparr>"
  have first: "inquirer env (events g @ [Inquirer TextPrompt]) = []"
    using Suc.prems[of 0] by simp
  have rest: "inquirer env (events ?g1 @ replicate (Suc j) (Inquirer TextPrompt)) = []"
    if "j < k" for j
    using Suc.prems[of "Suc j"] that by simp
  have "promptCommitMessage env g = promptCommitMessage env ?g1"
    using first by (subst promptCommitMessage.simps) simp
  also have "\<dots> = promptCommitMessage env
      (?g1\<lparr>events := events ?g1 @ replicate k (Inquirer TextPrompt)\<rparr>)"
    using rest by (rule Suc.IH)
  finally show ?case by (simp add: replicate_snoc)
qed

lemma promptCommitMessage_answer:
  assumes "\<And>j. j < k \<Longrightarrow> inquirer env (events g @ replicate (Suc j) (Inquirer TextPrompt)) = []"
    and "inquirer env (events g @ replicate (Suc k) (Inquirer TextPrompt)) \<noteq> []"
  shows "promptCommitMessage env g
       = Some (Return (inquirer env (events g @ replicate (Suc k) (Inquirer TextPrompt)))
                      (g\<lparr>events := events g @ replicate (Suc k) (Inquirer TextPrompt)\<rparr>))"
proof -
  let ?gk = "g\<lparr>events := events g @ replicate k (Inquirer TextPrompt)\<rparr>"
  have "promptCommitMessage env g = promptCommitMessage env ?gk"
    using assms(1) by (rule promptCommitMessage_skip)
  also have "\<dots> = Some (Return (inquirer env (events ?gk @ [Inquirer TextPrompt]))
                      (?gk\<lparr>events := events ?gk @ [Inquirer TextPrompt]\<rparr>))"
    using assms(2) by (subst promptCommitMessage.simps) (simp add: replicate_snoc)
  finally show ?thesis by (simp add: replicate_snoc)
qed

lemma promptCommitMessage_Some:
  assumes "promptCommitMessage env g = Some r"
  shows "\<exists>k. r = Return (inquirer env (events g @ replicate (Suc k) (Inquirer TextPrompt)))
                    (g\<lparr>events := events g @ replicate (Suc k) (Inquirer TextPrompt)\<rparr>)
        \<and> inquirer env (events g @ replicate (Suc k) (Inquirer TextPrompt)) \<noteq> []
        \<and> (\<forall>j<k. inquirer env (events g @ replicate (Suc j) (Inquirer TextPrompt)) = [])"
  using assms
proof (induction env g r rule: promptCommitMessage.raw_induct[rotated 1, consumes 1, case_names step])
  case (step f env g r)
  let ?g1 = "g\<lparr>events := events g @ [Inquirer TextPrompt]\<rparr>"
  show ?case
  proof (cases "inquirer env (events g @ [Inquirer TextPrompt]) = []")
    case True
    with step(2) have "f env ?g1 = Some r" by simp
    from step(1)[OF this] obtain k where
      k: "r = Return (inquirer env (events ?g1 @ replicate (Suc k) (Inquirer TextPrompt)))
                  (?g1\<lparr>events := events ?g1 @ replicate (Suc k) (Inquirer TextPrompt)\<rparr>)"
         "inquirer env (events ?g1 @ replicate (Suc k) (Inquirer TextPrompt)) \<noteq> []"
         "\<forall>j<k. inquirer env (events ?g1 @ replicate (Suc j) (Inquirer TextPrompt)) = []"
      by blast
    have earlier: "inquirer env (events g @ replicate (Suc j) (Inquirer TextPrompt)) = []"
      if "j < Suc k" for j
    proof (cases j)
      case 0
      with True show ?thesis by simp
    next
      case (Suc i)
      with that k(3) show ?thesis by simp
    qed
    from k(1,2) earlier show ?thesis by (intro exI[of _ "Suc k"]) simp
  next
    case False
    with step(2) show ?thesis by (intro exI[of _ 0]) auto
  qed
qed

lemma promptCommitMessage_never:
  "(\<And>tr. inquirer env tr = []) \<Longrightarrow> promptCommitMessage env g = None"
proof (rule ccontr)
  assume silent: "\<And>tr. inquirer env tr = []" and "promptCommitMessage env g \<noteq> None"
  then obtain r where "promptCommitMessage env g = Some r" by auto
  from promptCommitMessage_Some[OF this] silent show False by auto
qed


subsection \<open>What each step adds to the trace\<close>

lemma checkConflicted_run:
  "checkConflicted env g =
     (case git_status env (events g @ [Log Notice [''checking for conflicts''], GitStatus]) of
        Inl msg \<Rightarrow> Some (Throw (Rejected msg)
           (g\<lparr>events := events g @ [Log Notice [''checking for conflicts''], GitStatus]\<rparr>))
      | Inr st \<Rightarrow>
          if conflicted st \<noteq> []
          then Some (Throw UnresolvedConflict
           (g\<lparr>events := events g @ [Log Notice [''checking for conflicts''], GitStatus]\<rparr>))
          else Some (Return ()
           (g\<lparr>events := events g @ [Log Notice [''checking for conflicts''], GitStatus,
                Log Success [''no conflicts'']]\<rparr>)))"
  by (simp add: checkConflicted_def split: sum.splits)

lemma checkConflicted_Return:
  assumes "checkConflicted env g = Some (Return u g')"
  shows "g' = g\<lparr>events := events g @ [Log Notice [''checking for conflicts''], GitStatus,
                Log Success [''no conflicts'']]\<rparr>"
  using assms by (auto simp: checkConflicted_run split: sum.splits if_splits)

lemma pullRemoteRepo_run:
  "pullRemoteRepo env b opts g =
     (case git_run env (events g @ [Log Notice [''sync remote branch '' @ b],
                                    GitPull ''origin'' b opts]) of
        None \<Rightarrow> Some (Return () (g\<lparr>events := events g @
                  [Log Notice [''sync remote branch '' @ b], GitPull ''origin'' b opts]\<rparr>))
      | Some message \<Rightarrow>
          if string_indexOf message ''Permission denied (publickey)'' \<ge> 0
          then (case gitServer g of
                  None \<Rightarrow> Some (Throw TypeError (g\<lparr>events := events g @
                    [Log Notice [''sync remote branch '' @ b], GitPull ''origin'' b opts]\<rparr>))
                | Some s \<Rightarrow> Some (Throw
                    (SSHKeyMissing (getSSHKeysUrl env s) (getSSHKeysHelpUrl env s))
                    (g\<lparr>events := events g @
                    [Log Notice [''sync remote branch '' @ b], GitPull ''origin'' b opts]\<rparr>)))
          else if string_indexOf message (''Couldn't find remote ref '' @ b) \<ge> 0
          then Some (Exit 0 (g\<lparr>events := events g @
                 [Log Notice [''sync remote branch '' @ b], GitPull ''origin'' b opts,
                  Log Notice [''fetching remote ['' @ b @ ''] failed'']]\<rparr>))
          else Some (Exit 0 (g\<lparr>events := events g @
                 [Log Notice [''sync remote branch '' @ b], GitPull ''origin'' b opts,
                  Log Failure [message]]\<rparr>)))"
  by (simp add: pullRemoteRepo_def split: option.splits)

lemma pullRemoteRepo_Return:
  assumes "pullRemoteRepo env b opts g = Some (Return u g')"
  shows "g' = g\<lparr>events := events g @
                 [Log Notice [''sync remote branch '' @ b], GitPull ''origin'' b opts]\<rparr>"
  using assms by (auto simp: pullRemoteRepo_run split: option.splits if_splits)

lemma pushRemoteRepo_Return:
  assumes "pushRemoteRepo env b g = Some (Return u g')"
  shows "g' = g\<lparr>events := events g @
                 [Log Notice [''push to remote branch '' @ b], GitPush ''origin'' b,
                  Log Success [''push done'']]\<rparr>"
  using assms by (auto simp: pushRemoteRepo_def split: option.splits)

lemma checkStash_Return:
  assumes "checkStash env g = Some (Return u g')"
  shows "\<exists>evs stash. g' = g\<lparr>events := events g @ evs\<rparr>
           \<and> git_calls evs = GitStashList # stash
           \<and> (stash = [] \<or> stash = [GitStash [''pop'']])"
proof -
  let ?a = "[Log Notice [''checking the stash''], GitStashList]"
  let ?b = "[Log Notice [''checking the stash''], GitStashList, GitStash [''pop''],
             Log Success [''stash pop done'']]"
  from assms have "g' = g\<lparr>events := events g @ ?a\<rparr> \<or> g' = g\<lparr>events := events g @ ?b\<rparr>"
    by (auto simp: checkStash_def split: sum.splits option.splits if_splits)
  then show ?thesis
  proof
    assume "g' = g\<lparr>events := events g @ ?a\<rparr>"
    then show ?thesis by (intro exI[of _ ?a] exI[of _ "[]"]) simp
  next
    assume "g' = g\<lparr>events := events g @ ?b\<rparr>"
    then show ?thesis by (intro exI[of _ ?b] exI[of _ "[GitStash [''pop'']]"]) simp
  qed
qed

lemma checkoutBranch_Return:
  assumes "checkoutBranch env g = Some (Return u g')"
  shows "\<exists>evs co. g' = g\<lparr>events := events g @ evs\<rparr>
           \<and> git_calls evs = [GitBranchLocal, co]
           \<and> (co = GitCheckout (js_string (branch g))
              \<or> co = GitCheckoutLocalBranch (js_string (branch g)))"
proof -
  let ?a = "[GitBranchLocal, GitCheckout (js_string (branch g)),
             Log Success [''switched to branch '' @ js_string (branch g)]]"
  let ?b = "[GitBranchLocal, GitCheckoutLocalBranch (js_string (branch g)),
             Log Success [''switched to branch '' @ js_string (branch g)]]"
  from assms have "g' = g\<lparr>events := events g @ ?a\<rparr> \<or> g' = g\<lparr>events := events g @ ?b\<rparr>"
    by (auto simp: checkoutBranch_def split: sum.splits option.splits if_splits)
  then show ?thesis
  proof
    assume "g' = g\<lparr>events := events g @ ?a\<rparr>"
    then show ?thesis
      by (intro exI[of _ ?a] exI[of _ "GitCheckout (js_string (branch g))"]) simp
  next
    assume "g' = g\<lparr>events := events g @ ?b\<rparr>"
    then show ?thesis
      by (intro exI[of _ ?b] exI[of _ "GitCheckoutLocalBranch (js_string (branch g))"]) simp
  qed
qed

lemma getRemoteBranchList_Return:
  assumes "getRemoteBranchList env type g = Some (Return vs g')"
  shows "\<exists>remoteList.
           git_listRemote env (events g @ [GitListRemote [''--refs'']]) = Inr remoteList
         \<and> g' = g\<lparr>events := events g @ [GitListRemote [''--refs''], ConsoleLog remoteList]\<rparr>
         \<and> vs = filter_truthy (map_exec (semver_valid env) (reg_literal type) 0
                                 (split_on newline remoteList))"
  using assms by (auto simp: getRemoteBranchList_def split: sum.splits)

lemma getCorrectVersion_Return:
  assumes "getCorrectVersion env type g = Some (Return u g')"
  shows "\<exists>evs. g' = g\<lparr>branch := Some ((if truthy type then string_of type else VERSION_DEVELOP)
                                       @ ''/'' @ version g),
                       events := events g @ evs\<rparr>
           \<and> git_calls evs = [GitListRemote [''--refs'']]"
proof -
  let ?b = "(if truthy type then string_of type else VERSION_DEVELOP) @ ''/'' @ version g"
  from assms obtain vs g1 where
    1: "getRemoteBranchList env type (g\<lparr>events := events g @ [Log Notice [''resolving the branch'']]\<rparr>)
          = Some (Return vs g1)"
    and 2: "g' = g1\<lparr>branch := Some ((if truthy type then string_of type else VERSION_DEVELOP)
                                       @ ''/'' @ version g1),
                     events := events g1 @ [Log Success [''branch resolved '' @
                        (if truthy type then string_of type else VERSION_DEVELOP)
                                       @ ''/'' @ version g1]]\<rparr>"
    by (auto simp: getCorrectVersion_def js_string_def andThen_eq_Return)
  from getRemoteBranchList_Return[OF 1] obtain rl where
    "g1 = g\<lparr>events := events g @ [Log Notice [''resolving the branch''],
                GitListRemote [''--refs''], ConsoleLog rl]\<rparr>"
    by auto
  with 2 show ?thesis
    by (intro exI[of _ "[Log Notice [''resolving the branch''],
                GitListRemote [''--refs''], ConsoleLog rl,
                Log Success [''branch resolved '' @ ?b]]"]) simp
qed

lemma checkRemoteMaster_Return:
  assumes "checkRemoteMaster env g = Some (Return hasMaster g')"
  shows "\<exists>remoteList.
           git_listRemote env (events g @ [GitListRemote [''--refs'']]) = Inr remoteList
         \<and> g' = g\<lparr>events := events g @ [GitListRemote [''--refs'']]\<rparr>
         \<and> hasMaster = (string_indexOf remoteList ''refs/heads/master'' \<ge> 0)"
  using assms by (auto simp: checkRemoteMaster_def split: sum.splits)


lemma checkNotCommitted_clean:
  assumes "git_status env (events g @ [GitStatus]) = Inr st" and "nothing_pending st"
  shows "checkNotCommitted env g = Some (Return () (g\<lparr>events := events g @ [GitStatus]\<rparr>))"
  using assms by (simp add: checkNotCommitted_def nothing_pending_def)

lemma checkNotCommitted_pending:
  assumes "git_status env (events g @ [GitStatus]) = Inr st" and "\<not> nothing_pending st"
    and "\<And>tr. git_run env tr = None"
  shows "checkNotCommitted env g =
           andThen (promptCommitMessage env) (\<lambda>message.
           andThen (await_unit (GitCommit message) (git_run env)) (\<lambda>_.
             log_msg Success [''local commit done'']))
           (g\<lparr>events := events g @ staging st\<rparr>)"
  using assms by (auto simp: checkNotCommitted_def nothing_pending_def staging_def)

lemma checkNotCommitted_pending_Return:
  assumes st: "git_status env (events g @ [GitStatus]) = Inr st" and "\<not> nothing_pending st"
    and ret: "checkNotCommitted env g = Some (Return u g')"
  shows "\<exists>k. inquirer env (events g @ staging st @ replicate (Suc k) (Inquirer TextPrompt)) \<noteq> []
           \<and> (\<forall>j<k. inquirer env
                       (events g @ staging st @ replicate (Suc j) (Inquirer TextPrompt)) = [])
           \<and> g' = g\<lparr>events := events g @ staging st @ replicate (Suc k) (Inquirer TextPrompt)
                   @ [GitCommit (inquirer env
                        (events g @ staging st @ replicate (Suc k) (Inquirer TextPrompt))),
                      Log Success [''local commit done'']]\<rparr>"
proof -
  from assms obtain m g1 where
    p: "promptCommitMessage env (g\<lparr>events := events g @ staging st\<rparr>) = Some (Return m g1)"
    and g': "g' = g1\<lparr>events := events g1 @ [GitCommit m, Log Success [''local commit done'']]\<rparr>"
    by (auto simp: checkNotCommitted_def nothing_pending_def staging_def andThen_eq_Return
             split: option.splits)
  from promptCommitMessage_Some[OF p] obtain k where
    "m = inquirer env (events g @ staging st @ replicate (Suc k) (Inquirer TextPrompt))"
    "g1 = g\<lparr>events := events g @ staging st @ replicate (Suc k) (Inquirer TextPrompt)\<rparr>"
    "inquirer env (events g @ staging st @ replicate (Suc k) (Inquirer TextPrompt)) \<noteq> []"
    "\<forall>j<k. inquirer env (events g @ staging st @ replicate (Suc j) (Inquirer TextPrompt)) = []"
    by auto
  with g' show ?thesis by (intro exI[of _ k]) simp
qed

lemma checkNotCommitted_Return:
  assumes "checkNotCommitted env g = Some (Return u g')"
  shows "\<exists>evs staged. g' = g\<lparr>events := events g @ evs\<rparr>
           \<and> git_calls evs = GitStatus # staged
           \<and> (staged = []
              \<or> (\<exists>a b c d e m. staged =
                    [GitAdd a, GitAdd b, GitAdd c, GitAdd d, GitAdd e, GitCommit m]))"
proof -
  from assms obtain st where st: "git_status env (events g @ [GitStatus]) = Inr st"
    by (auto simp: checkNotCommitted_def split: sum.splits)
  show ?thesis
  proof (cases "nothing_pending st")
    case True
    with st assms have "g' = g\<lparr>events := events g @ [GitStatus]\<rparr>"
      by (simp add: checkNotCommitted_clean)
    then show ?thesis by (intro exI[of _ "[GitStatus]"] exI[of _ "[]"]) simp
  next
    case False
    from checkNotCommitted_pending_Return[OF st False assms] obtain k m where
      "g' = g\<lparr>events := events g @ staging st @ replicate (Suc k) (Inquirer TextPrompt)
                   @ [GitCommit m, Log Success [''local commit done'']]\<rparr>"
      by blast
    then show ?thesis
      by (intro exI[of _ "staging st @ replicate (Suc k) (Inquirer TextPrompt)
                   @ [GitCommit m, Log Success [''local commit done'']]"]
                exI[of _ "tl (git_calls (staging st)) @ [GitCommit m]"])
         (simp add: staging_def)
  qed
qed

lemma initCommit_Return:
  assumes "initCommit env g = Some (Return u g')"
  shows "\<exists>evs staged tr remoteList.
           g' = g\<lparr>events := events g @ evs\<rparr>
         \<and> prefix tr (events g') \<and> git_listRemote env tr = Inr remoteList
         \<and> git_calls evs =
             [GitStatus, GitStatus] @ staged @ [GitListRemote [''--refs''],
               (if string_indexOf remoteList ''refs/heads/master'' \<ge> 0
                then GitPull ''origin'' ''master'' [(''--allow-unrelated-histories'', None)]
                else GitPush ''origin'' ''master'')]
         \<and> (staged = []
            \<or> (\<exists>a b c d e m. staged =
                  [GitAdd a, GitAdd b, GitAdd c, GitAdd d, GitAdd e, GitCommit m]))"
proof -
  let ?opts = "[(''--allow-unrelated-histories'', None)]"
  from assms obtain g1 g2 g3 h where
    c1: "checkConflicted env g = Some (Return () g1)" and
    c2: "checkNotCommitted env g1 = Some (Return () g2)" and
    c3: "checkRemoteMaster env g2 = Some (Return h g3)" and
    c4: "(if h then pullRemoteRepo env ''master'' ?opts
                     (g3\<lparr>events := events g3 @
                        [Log Notice [''remote master exists, forcing a merge'']]\<rparr>)
          else pushRemoteRepo env ''master'' g3) = Some (Return u g')"
    by (auto simp: initCommit_def andThen_eq_Return split: if_splits)
  let ?e1 = "[Log Notice [''checking for conflicts''], GitStatus, Log Success [''no conflicts'']]"
  have g1: "g1 = g\<lparr>events := events g @ ?e1\<rparr>"
    using checkConflicted_Return[OF c1] .
  from checkNotCommitted_Return[OF c2] obtain e2 staged where
    g2: "g2 = g1\<lparr>events := events g1 @ e2\<rparr>" and
    e2: "git_calls e2 = GitStatus # staged" and
    staged: "staged = []
         \<or> (\<exists>a b c d e m. staged =
               [GitAdd a, GitAdd b, GitAdd c, GitAdd d, GitAdd e, GitCommit m])"
    by blast
  from checkRemoteMaster_Return[OF c3] obtain rl where
    rl: "git_listRemote env (events g2 @ [GitListRemote [''--refs'']]) = Inr rl" and
    g3: "g3 = g2\<lparr>events := events g2 @ [GitListRemote [''--refs'']]\<rparr>" and
    h: "h = (string_indexOf rl ''refs/heads/master'' \<ge> 0)"
    by blast
  let ?tr = "events g @ ?e1 @ e2 @ [GitListRemote [''--refs'']]"
  let ?pull = "[Log Notice [''remote master exists, forcing a merge''],
                Log Notice [''sync remote branch master''],
                GitPull ''origin'' ''master'' ?opts]"
  let ?push = "[Log Notice [''push to remote branch master''], GitPush ''origin'' ''master'',
                Log Success [''push done'']]"
  let ?e4 = "if h then ?pull else ?push"
  have tr: "git_listRemote env ?tr = Inr rl" using rl g1 g2 by simp
  have "g' = g3\<lparr>events := events g3 @ ?e4\<rparr>"
    using c4 by (auto dest!: pullRemoteRepo_Return pushRemoteRepo_Return split: if_splits)
  with g1 g2 g3 have g': "g' = g\<lparr>events := events g @ ?e1 @ e2 @ [GitListRemote [''--refs'']] @ ?e4\<rparr>"
    by simp
  have pre: "prefix ?tr (events g')" unfolding g' by (simp add: prefix_def)
  have calls: "git_calls (?e1 @ e2 @ [GitListRemote [''--refs'']] @ ?e4) =
             [GitStatus, GitStatus] @ staged @ [GitListRemote [''--refs''],
               (if string_indexOf rl ''refs/heads/master'' \<ge> 0
                then GitPull ''origin'' ''master'' ?opts
                else GitPush ''origin'' ''master'')]"
    using e2 h by simp
  show ?thesis
    apply (rule exI[of _ "?e1 @ e2 @ [GitListRemote [''--refs'']] @ ?e4"])
    apply (rule exI[of _ staged])
    apply (rule exI[of _ ?tr])
    apply (rule exI[of _ rl])
    apply (intro conjI)
        apply (rule g')
       apply (rule pre)
      apply (rule tr)
     apply (rule calls)
    apply (rule staged)
    done
qed

lemma filter_truthy_member: "x \<in> set (filter_truthy xs) \<Longrightarrow> Some x \<in> set xs"
  by (auto simp: filter_truthy_def truthy_def string_of_def split: option.splits)

lemma scan_sound:
  assumes "array_indexOf (filter_truthy (map_exec valid lit 0 (split_on sep rl))) v \<ge> 0"
  shows "valid v \<and> string_indexOf rl (lit @ v) \<ge> 0"
proof -
  from assms have "Some v \<in> set (map_exec valid lit 0 (split_on sep rl))"
    by (simp add: array_indexOf_nonneg_iff filter_truthy_member)
  from map_exec_sound[OF this] obtain l where
    "valid v" "l \<in> set (split_on sep rl)" "sublist (lit @ v) l"
    by blast
  moreover from this have "sublist l rl" by (simp add: split_on_sublist)
  ultimately have "sublist (lit @ v) rl" by (meson sublist_order.order_trans)
  with \<open>valid v\<close> show ?thesis by (simp add: string_indexOf_nonneg_iff)
qed

lemma pullRemoteMasterAndBranch_Return:
  assumes "pullRemoteMasterAndBranch env g = Some (Return u g')"
  shows "\<exists>evs branchPull.
           g' = g\<lparr>events := events g @ evs\<rparr>
         \<and> git_calls evs =
             [GitPull ''origin'' ''master'' [], GitStatus, GitListRemote [''--refs'']] @ branchPull
         \<and> (branchPull = []
            \<or> branchPull = [GitPull ''origin'' (js_string (branch g)) [], GitStatus]
              \<and> semver_valid env (version g)
              \<and> (\<exists>tr remoteList. prefix tr (events g') \<and> git_listRemote env tr = Inr remoteList
                    \<and> string_indexOf remoteList (''refs/heads/dev/'' @ version g) \<ge> 0))"
proof -
  let ?b = "js_string (branch g)"
  let ?e0 = "[Log Notice [''merge [master] -> ['' @ ?b @ '']'']]"
  let ?e1 = "[Log Notice [''sync remote branch master''], GitPull ''origin'' ''master'' []]"
  let ?e2 = "[Log Success [''remote [master] merged'']]"
  let ?e3 = "[Log Notice [''checking for conflicts''], GitStatus, Log Success [''no conflicts'']]"
  let ?e4 = "[Log Notice [''checking the remote branch'']]"
  from assms obtain g1 g2 g3 vs where
    c1: "pullRemoteRepo env ''master'' [] (g\<lparr>events := events g @ ?e0\<rparr>) = Some (Return () g1)" and
    c2: "checkConflicted env (g1\<lparr>events := events g1 @ ?e2\<rparr>) = Some (Return () g2)" and
    c3: "getRemoteBranchList env None (g2\<lparr>events := events g2 @ ?e4\<rparr>) = Some (Return vs g3)" and
    c4: "(if array_indexOf vs (version g) \<ge> 0
          then andThen (pullRemoteRepo env ?b []) (\<lambda>_.
               andThen (log_msg Success [''remote ['' @ ?b @ ''] merged'']) (\<lambda>_.
                 checkConflicted env))
               (g3\<lparr>events := events g3 @ [Log Notice [''merge ['' @ ?b @ ''] -> ['' @ ?b @ '']'']]\<rparr>)
          else log_msg Success [''no remote branch ['' @ ?b @ '']''] g3) = Some (Return u g')"
    by (auto simp: pullRemoteMasterAndBranch_def andThen_eq_Return split: if_splits)
  have g1: "g1 = g\<lparr>events := events g @ ?e0 @ ?e1\<rparr>"
    using pullRemoteRepo_Return[OF c1] by simp
  have g2: "g2 = g\<lparr>events := events g @ ?e0 @ ?e1 @ ?e2 @ ?e3\<rparr>"
    using checkConflicted_Return[OF c2] g1 by simp
  let ?tr = "events g @ ?e0 @ ?e1 @ ?e2 @ ?e3 @ ?e4 @ [GitListRemote [''--refs'']]"
  from getRemoteBranchList_Return[OF c3] g2 obtain rl where
    rl: "git_listRemote env ?tr = Inr rl" and
    g3: "g3 = g\<lparr>events := ?tr @ [ConsoleLog rl]\<rparr>" and
    vs: "vs = filter_truthy (map_exec (semver_valid env) (reg_literal None) 0
                                 (split_on newline rl))"
    by auto
  show ?thesis
  proof (cases "array_indexOf vs (version g) \<ge> 0")
    case False
    let ?evs = "?e0 @ ?e1 @ ?e2 @ ?e3 @ ?e4 @ [GitListRemote [''--refs''], ConsoleLog rl,
                 Log Success [''no remote branch ['' @ ?b @ '']'']]"
    from False c4 g3 have "g' = g\<lparr>events := events g @ ?evs\<rparr>" by auto
    then show ?thesis by (intro exI[of _ ?evs] exI[of _ "[]"]) simp
  next
    case True
    let ?e5 = "[GitListRemote [''--refs''], ConsoleLog rl,
                Log Notice [''merge ['' @ ?b @ ''] -> ['' @ ?b @ '']'']]"
    let ?e6 = "[Log Notice [''sync remote branch '' @ ?b], GitPull ''origin'' ?b []]"
    let ?e7 = "[Log Success [''remote ['' @ ?b @ ''] merged'']]"
    from True c4 obtain g4 where
      c5: "pullRemoteRepo env ?b []
             (g3\<lparr>events := events g3 @ [Log Notice [''merge ['' @ ?b @ ''] -> ['' @ ?b @ '']'']]\<rparr>)
           = Some (Return () g4)" and
      c6: "checkConflicted env (g4\<lparr>events := events g4 @ ?e7\<rparr>) = Some (Return u g')"
      by (auto simp: andThen_eq_Return)
    have g4: "g4 = g\<lparr>events := events g @ ?e0 @ ?e1 @ ?e2 @ ?e3 @ ?e4 @ ?e5 @ ?e6\<rparr>"
      using pullRemoteRepo_Return[OF c5] g3 by simp
    let ?evs = "?e0 @ ?e1 @ ?e2 @ ?e3 @ ?e4 @ ?e5 @ ?e6 @ ?e7 @ ?e3"
    have g': "g' = g\<lparr>events := events g @ ?evs\<rparr>"
      using checkConflicted_Return[OF c6] g4 by simp
    have pre: "prefix ?tr (events g')" unfolding g' by (simp add: prefix_def)
    from True vs have sound: "semver_valid env (version g)
        \<and> string_indexOf rl (''refs/heads/dev/'' @ version g) \<ge> 0"
      using scan_sound[of "semver_valid env" "''refs/heads/dev/''" newline rl "version g"]
      by (simp add: reg_literal_def VERSION_RELEASE_def)
    from pre rl sound have ex: "\<exists>tr remoteList. prefix tr (events g')
        \<and> git_listRemote env tr = Inr remoteList
        \<and> string_indexOf remoteList (''refs/heads/dev/'' @ version g) \<ge> 0"
      by blast
    have calls: "git_calls ?evs =
        [GitPull ''origin'' ''master'' [], GitStatus, GitListRemote [''--refs'']]
        @ [GitPull ''origin'' ?b [], GitStatus]"
      by simp
    show ?thesis
      apply (rule exI[of _ ?evs])
      apply (rule exI[of _ "[GitPull ''origin'' ?b [], GitStatus]"])
      apply (intro conjI)
        apply (rule g')
       apply (rule calls)
      apply (rule disjI2)
      apply (intro conjI)
        apply (rule refl)
       apply (rule conjunct1[OF sound])
      apply (rule ex)
      done
  qed
qed


lemma commit_Return:
  assumes "commit env g = Some (Return u g')"
  shows "\<exists>evs stash staged co branchPull.
           g' = g\<lparr>branch := Some (''dev/'' @ version g), events := events g @ evs\<rparr>
         \<and> git_calls evs =
             [GitListRemote [''--refs''], GitStashList] @ stash @ [GitStatus, GitStatus] @ staged
             @ [GitBranchLocal, co, GitPull ''origin'' ''master'' [], GitStatus,
                GitListRemote [''--refs'']]
             @ branchPull @ [GitPush ''origin'' (''dev/'' @ version g)]
         \<and> (stash = [] \<or> stash = [GitStash [''pop'']])
         \<and> (staged = []
            \<or> (\<exists>a b c d e m. staged =
                  [GitAdd a, GitAdd b, GitAdd c, GitAdd d, GitAdd e, GitCommit m]))
         \<and> (co = GitCheckout (''dev/'' @ version g)
            \<or> co = GitCheckoutLocalBranch (''dev/'' @ version g))
         \<and> (branchPull = []
            \<or> branchPull = [GitPull ''origin'' (''dev/'' @ version g) [], GitStatus]
              \<and> semver_valid env (version g)
              \<and> (\<exists>tr remoteList. prefix tr (events g') \<and> git_listRemote env tr = Inr remoteList
                    \<and> string_indexOf remoteList (''refs/heads/dev/'' @ version g) \<ge> 0))"
proof -
  let ?b = "''dev/'' @ version g"
  from assms obtain g1 g2 g3 g4 g5 g6 where
    c1: "getCorrectVersion env None g = Some (Return () g1)" and
    c2: "checkStash env g1 = Some (Return () g2)" and
    c3: "checkConflicted env g2 = Some (Return () g3)" and
    c4: "checkNotCommitted env g3 = Some (Return () g4)" and
    c5: "checkoutBranch env g4 = Some (Return () g5)" and
    c6: "pullRemoteMasterAndBranch env g5 = Some (Return () g6)" and
    c7: "pushRemoteRepo env (js_string (branch g6)) g6 = Some (Return u g')"
    by (auto simp: commit_def andThen_eq_Return)
  from getCorrectVersion_Return[OF c1] obtain e1 where
    g1: "g1 = g\<lparr>branch := Some ?b, events := events g @ e1\<rparr>" and
    e1: "git_calls e1 = [GitListRemote [''--refs'']]"
    by (auto simp: truthy_def VERSION_DEVELOP_def)
  from checkStash_Return[OF c2] obtain e2 stash where
    g2: "g2 = g1\<lparr>events := events g1 @ e2\<rparr>" and
    e2: "git_calls e2 = GitStashList # stash" and
    stash: "stash = [] \<or> stash = [GitStash [''pop'']]"
    by blast
  let ?e3 = "[Log Notice [''checking for conflicts''], GitStatus, Log Success [''no conflicts'']]"
  have g3: "g3 = g2\<lparr>events := events g2 @ ?e3\<rparr>"
    using checkConflicted_Return[OF c3] .
  from checkNotCommitted_Return[OF c4] obtain e4 staged where
    g4: "g4 = g3\<lparr>events := events g3 @ e4\<rparr>" and
    e4: "git_calls e4 = GitStatus # staged" and
    staged: "staged = []
         \<or> (\<exists>a b c d e m. staged =
               [GitAdd a, GitAdd b, GitAdd c, GitAdd d, GitAdd e, GitCommit m])"
    by blast
  have b4: "branch g4 = Some ?b" and v4: "version g4 = version g"
    using g1 g2 g3 g4 by simp_all
  from checkoutBranch_Return[OF c5] obtain e5 co where
    g5: "g5 = g4\<lparr>events := events g4 @ e5\<rparr>" and
    e5: "git_calls e5 = [GitBranchLocal, co]" and
    co0: "co = GitCheckout (js_string (branch g4))
          \<or> co = GitCheckoutLocalBranch (js_string (branch g4))"
    by blast
  have co: "co = GitCheckout ?b \<or> co = GitCheckoutLocalBranch ?b"
    using co0 unfolding b4 js_string_def by simp
  have b5: "branch g5 = Some ?b" and v5: "version g5 = version g"
    using g5 b4 v4 by simp_all
  from pullRemoteMasterAndBranch_Return[OF c6] obtain e6 branchPull where
    g6: "g6 = g5\<lparr>events := events g5 @ e6\<rparr>" and
    e6: "git_calls e6 =
           [GitPull ''origin'' ''master'' [], GitStatus, GitListRemote [''--refs'']] @ branchPull" and
    bp0: "branchPull = []
         \<or> branchPull = [GitPull ''origin'' (js_string (branch g5)) [], GitStatus]
           \<and> semver_valid env (version g5)
           \<and> (\<exists>tr remoteList. prefix tr (events g6) \<and> git_listRemote env tr = Inr remoteList
                 \<and> string_indexOf remoteList (''refs/heads/dev/'' @ version g5) \<ge> 0)"
    by blast
  have bp: "branchPull = []
         \<or> branchPull = [GitPull ''origin'' ?b [], GitStatus]
           \<and> semver_valid env (version g)
           \<and> (\<exists>tr remoteList. prefix tr (events g6) \<and> git_listRemote env tr = Inr remoteList
                 \<and> string_indexOf remoteList (''refs/heads/dev/'' @ version g) \<ge> 0)"
    using bp0 unfolding b5 v5 js_string_def by simp
  have b6: "js_string (branch g6) = ?b"
    using g6 b5 by (simp add: js_string_def)
  let ?e7 = "[Log Notice [''push to remote branch '' @ ?b], GitPush ''origin'' ?b,
              Log Success [''push done'']]"
  have g7: "g' = g6\<lparr>events := events g6 @ ?e7\<rparr>"
    using pushRemoteRepo_Return[OF c7] b6 by simp
  let ?evs = "e1 @ e2 @ ?e3 @ e4 @ e5 @ e6 @ ?e7"
  have g': "g' = g\<lparr>branch := Some ?b, events := events g @ ?evs\<rparr>"
    using g1 g2 g3 g4 g5 g6 g7 by simp
  have calls: "git_calls ?evs =
             [GitListRemote [''--refs''], GitStashList] @ stash @ [GitStatus, GitStatus] @ staged
             @ [GitBranchLocal, co, GitPull ''origin'' ''master'' [], GitStatus,
                GitListRemote [''--refs'']]
             @ branchPull @ [GitPush ''origin'' ?b]"
    using e1 e2 e4 e5 e6 by simp
  have "prefix (events g6) (events g')" using g7 by (simp add: prefix_def)
  with bp have bp': "branchPull = []
         \<or> branchPull = [GitPull ''origin'' ?b [], GitStatus]
           \<and> semver_valid env (version g)
           \<and> (\<exists>tr remoteList. prefix tr (events g') \<and> git_listRemote env tr = Inr remoteList
                 \<and> string_indexOf remoteList (''refs/heads/dev/'' @ version g) \<ge> 0)"
    by (meson prefix_order.order_trans)
  show ?thesis
    apply (rule exI[of _ ?evs])
    apply (rule exI[of _ stash])
    apply (rule exI[of _ staged])
    apply (rule exI[of _ co])
    apply (rule exI[of _ branchPull])
    apply (intro conjI)
         apply (rule g')
        apply (rule calls)
       apply (rule stash)
      apply (rule staged)
     apply (rule co)
    apply (rule bp')
    done
qed


lemma getCorrectVersion_run:
  assumes "git_listRemote env (events g @ [Log Notice [''resolving the branch''],
                                           GitListRemote [''--refs'']]) = Inr remoteList"
  shows "getCorrectVersion env type g =
           Some (Return ()
             (g\<lparr>branch := Some ((if truthy type then string_of type else ''dev'') @ ''/'' @ version g),
                events := events g @
                  [Log Notice [''resolving the branch''], GitListRemote [''--refs''],
                   ConsoleLog remoteList,
                   Log Success [''branch resolved '' @
                     (if truthy type then string_of type else ''dev'') @ ''/'' @ version g]]\<rparr>))"
  using assms
  by (simp add: getCorrectVersion_def getRemoteBranchList_def js_string_def VERSION_DEVELOP_def)


lemma returned_Some: "returned r = Some u \<Longrightarrow> \<exists>g'. r = Some (Return u g')"
  by (auto simp: returned_def split: option.splits outcome.splits)

lemma new_events_Return [simp]:
  "new_events g (Some (Return u (g\<lparr>events := events g @ evs\<rparr>))) = evs"
  by (simp add: new_events_def state_of_def)

lemma new_events_Return_update [simp]:
  "new_events g (Some (Return u (g\<lparr>branch := b, events := events g @ evs\<rparr>))) = evs"
  by (simp add: new_events_def state_of_def)

lemma branch_of_call_git_call: "branch_of_call e \<noteq> None \<Longrightarrow> is_git_call e"
  by (cases e) simp_all

lemma in_git_calls: "e \<in> set evs \<Longrightarrow> is_git_call e \<Longrightarrow> e \<in> set (git_calls evs)"
  by (simp add: git_calls_def)

subsection \<open>The cached choices\<close>

lemma createPath_run:
  "andThen (createPath env file) f g =
     (case homePath g of
        None \<Rightarrow> Some (Throw TypeError g)
      | Some h \<Rightarrow> f (cache_file (cwd env) h file)
                    (g\<lparr>events := events g @ [EnsureDir (path_resolve (cwd env) [h, GIT_ROOT_DIR])]\<rparr>))"
  by (simp add: createPath_def cache_file_def split: option.splits)

lemma checkGitServer_run:
  assumes "homePath g = Some h"
  shows "checkGitServer env g =
     Some (Return ()
       (if \<not> truthy (files g (cache_file (cwd env) h GIT_SERVER_FILE)) \<or> refreshServer g
        then g\<lparr>gitServer := createGitServer
                  (inquirer env (events g @ [EnsureDir (path_resolve (cwd env) [h, GIT_ROOT_DIR]),
                                            Inquirer (ListPrompt GIT_SERVER_TYPE)])),
               files := (files g)(cache_file (cwd env) h GIT_SERVER_FILE \<mapsto>
                  inquirer env (events g @ [EnsureDir (path_resolve (cwd env) [h, GIT_ROOT_DIR]),
                                            Inquirer (ListPrompt GIT_SERVER_TYPE)])),
               events := events g @
                 [EnsureDir (path_resolve (cwd env) [h, GIT_ROOT_DIR]), Inquirer (ListPrompt GIT_SERVER_TYPE),
                  Log Success [''git server written'',
                    inquirer env (events g @ [EnsureDir (path_resolve (cwd env) [h, GIT_ROOT_DIR]),
                                              Inquirer (ListPrompt GIT_SERVER_TYPE)])
                    @ '' -> '' @ cache_file (cwd env) h GIT_SERVER_FILE]]\<rparr>
        else g\<lparr>gitServer := createGitServer (string_of (files g (cache_file (cwd env) h GIT_SERVER_FILE))),
               events := events g @
                 [EnsureDir (path_resolve (cwd env) [h, GIT_ROOT_DIR]),
                  Log Success [''git server read'',
                               string_of (files g (cache_file (cwd env) h GIT_SERVER_FILE))]]\<rparr>))"
  using assms by (simp add: checkGitServer_def createPath_run)

lemma checkGitToken_run:
  assumes "homePath g = Some h" and "gitServer g = Some s"
  shows "checkGitToken env g =
     Some (Return ()
       (if \<not> truthy (files g (cache_file (cwd env) h GIT_TOKEN_FILE)) \<or> refreshToken g
        then g\<lparr>token := Some
                  (inquirer env (events g @ [EnsureDir (path_resolve (cwd env) [h, GIT_ROOT_DIR]),
                     Log Notice [server_type env s @ '' token missing'',
                            ''create a '' @ server_type env s @ '' token first: ''
                              @ getTokenHelpUrl env s],
                     Inquirer PasswordPrompt])),
               files := (files g)(cache_file (cwd env) h GIT_TOKEN_FILE \<mapsto>
                  inquirer env (events g @ [EnsureDir (path_resolve (cwd env) [h, GIT_ROOT_DIR]),
                     Log Notice [server_type env s @ '' token missing'',
                            ''create a '' @ server_type env s @ '' token first: ''
                              @ getTokenHelpUrl env s],
                     Inquirer PasswordPrompt])),
               events := events g @
                 [EnsureDir (path_resolve (cwd env) [h, GIT_ROOT_DIR]),
                  Log Notice [server_type env s @ '' token missing'',
                            ''create a '' @ server_type env s @ '' token first: ''
                              @ getTokenHelpUrl env s],
                  Inquirer PasswordPrompt,
                  Log Success [''token written'',
                    inquirer env (events g @ [EnsureDir (path_resolve (cwd env) [h, GIT_ROOT_DIR]),
                     Log Notice [server_type env s @ '' token missing'',
                            ''create a '' @ server_type env s @ '' token first: ''
                              @ getTokenHelpUrl env s],
                     Inquirer PasswordPrompt])
                    @ '' -> '' @ cache_file (cwd env) h GIT_TOKEN_FILE],
                  SetToken (inquirer env (events g @ [EnsureDir (path_resolve (cwd env) [h, GIT_ROOT_DIR]),
                     Log Notice [server_type env s @ '' token missing'',
                            ''create a '' @ server_type env s @ '' token first: ''
                              @ getTokenHelpUrl env s],
                     Inquirer PasswordPrompt]))]\<rparr>
        else g\<lparr>token := Some (string_of (files g (cache_file (cwd env) h GIT_TOKEN_FILE))),
               events := events g @
                 [EnsureDir (path_resolve (cwd env) [h, GIT_ROOT_DIR]),
                  Log Verbose [''token'', string_of (files g (cache_file (cwd env) h GIT_TOKEN_FILE))],
                  Log Success [''token read'', cache_file (cwd env) h GIT_TOKEN_FILE],
                  SetToken (string_of (files g (cache_file (cwd env) h GIT_TOKEN_FILE)))]\<rparr>))"
  using assms by (simp add: checkGitToken_def createPath_run)

lemma checkGitToken_needs:
  assumes "checkGitToken env g = Some (Return u g')"
  shows "\<exists>h s. homePath g = Some h \<and> gitServer g = Some s"
  using assms
  by (auto simp: checkGitToken_def createPath_run split: option.splits if_splits)

lemma checkGitServer_needs:
  assumes "checkGitServer env g = Some (Return u g')"
  shows "\<exists>h. homePath g = Some h"
  using assms
  by (auto simp: checkGitServer_def createPath_run split: option.splits if_splits)


lemma truthy_Some: "truthy x \<Longrightarrow> x = Some (string_of x)"
  by (cases x) (simp_all add: truthy_def string_of_def)

lemma truthy_Some_iff [simp]: "truthy (Some v) = (v \<noteq> [])"
  by (simp add: truthy_def)

lemma string_of_Some [simp]: "string_of (Some v) = v"
  by (simp add: string_of_def)

lemma js_string_Some [simp]: "js_string (Some v) = v"
  by (simp add: js_string_def)

text \<open>
  Resolving a plain name (not empty, without a slash, neither \<open>.\<close> nor \<open>..\<close>) against a
  directory gives a path that ends with the name, after a prefix that depends on the
  directory alone.  So the four cache files and the ignore file are five different
  paths.
\<close>

lemma split_on_append_sep:
  "split_on sep (xs @ sep # ys) = split_on sep xs @ split_on sep ys"
  by (induction xs) (auto split: list.splits simp: split_on_nonempty)

lemma split_on_plain: "sep \<notin> set f \<Longrightarrow> split_on sep f = [f]"
  by (induction f) auto

lemma join_on_snoc:
  "join_on sep (segs @ [f]) = (if segs = [] then f else join_on sep segs @ sep # f)"
  by (induction sep segs rule: join_on.induct) auto

lemma resolve_args_acc:
  "resolve_args ps acc = (fst (resolve_args ps []) @ acc, snd (resolve_args ps []))"
proof (induction ps arbitrary: acc)
  case Nil
  show ?case by simp
next
  case (Cons p ps)
  show ?case
    using Cons.IH[of "p @ ''/'' @ acc"] Cons.IH[of "p @ ''/''"] Cons.IH[of acc]
    by simp
qed

lemma resolve_args_slash:
  assumes "acc = [] \<or> last acc = CHR ''/''"
  shows "fst (resolve_args ps acc) = [] \<or> last (fst (resolve_args ps acc)) = CHR ''/''"
  using assms
proof (induction ps arbitrary: acc)
  case Nil
  then show ?case by simp
next
  case (Cons p ps)
  have step: "last (p @ ''/'' @ acc) = CHR ''/''"
    using Cons.prems by (cases "acc = []") simp_all
  show ?case
  proof (cases "p = []")
    case True
    then show ?thesis using Cons.IH[OF Cons.prems] by simp
  next
    case False
    show ?thesis
    proof (cases "hd p = CHR ''/''")
      case True
      with False step show ?thesis by simp
    next
      case rel: False
      from step have "fst (resolve_args ps (p @ ''/'' @ acc)) = []
          \<or> last (fst (resolve_args ps (p @ ''/'' @ acc))) = CHR ''/''"
        by (intro Cons.IH) simp
      with False rel show ?thesis by simp
    qed
  qed
qed

lemma normalizeString_name:
  assumes "rp = [] \<or> last rp = CHR ''/''"
    and "f \<noteq> []" "CHR ''/'' \<notin> set f" "f \<noteq> ''.''" "f \<noteq> ''..''"
  shows "normalizeString (rp @ f @ ''/'') b = normalizeString rp b @ [f]"
proof (cases "rp = []")
  case True
  have "split_on CHR ''/'' (f @ ''/'') = [f, []]"
    using split_on_append_sep[of "CHR ''/''" f "[]"] assms(3) by (simp add: split_on_plain)
  then show ?thesis
    using True assms by (simp add: normalizeString_def normalize_segment_def)
next
  case False
  with assms(1) obtain rp' where rp: "rp = rp' @ ''/''"
    by (metis append_butlast_last_id)
  have a: "split_on CHR ''/'' (rp @ f @ ''/'') = split_on CHR ''/'' rp' @ [f, []]"
    unfolding rp
    using split_on_append_sep[of "CHR ''/''" rp' "f @ ''/''"]
      split_on_append_sep[of "CHR ''/''" f "[]"] assms(3)
    by (simp add: split_on_plain)
  have b: "split_on CHR ''/'' rp = split_on CHR ''/'' rp' @ [[]]"
    unfolding rp using split_on_append_sep[of "CHR ''/''" rp' "[]"] by simp
  show ?thesis
    unfolding normalizeString_def a b using assms(2-5)
    by (simp add: normalize_segment_def)
qed

lemma path_resolve_name:
  "\<exists>pre. \<forall>f. f \<noteq> [] \<and> CHR ''/'' \<notin> set f \<and> f \<noteq> ''.'' \<and> f \<noteq> ''..''
            \<longrightarrow> path_resolve c [d, f] = pre @ f"
proof -
  obtain rp a where r: "resolve_args [d, c] [] = (rp, a)"
    by (cases "resolve_args [d, c] []")
  from resolve_args_slash[of "[]" "[d, c]"] r have slash: "rp = [] \<or> last rp = CHR ''/''"
    by simp
  let ?segs = "normalizeString rp (\<not> a)"
  let ?pre = "(if a then ''/'' else []) @ (if ?segs = [] then [] else join_on CHR ''/'' ?segs @ ''/'')"
  have "path_resolve c [d, f] = ?pre @ f"
    if f: "f \<noteq> [] \<and> CHR ''/'' \<notin> set f \<and> f \<noteq> ''.'' \<and> f \<noteq> ''..''" for f
  proof -
    from f have "hd f \<noteq> CHR ''/''"
      by (cases f) auto
    with f have "resolve_args (rev [d, f] @ [c]) [] = resolve_args [d, c] (f @ ''/'')"
      by simp
    also have "\<dots> = (rp @ f @ ''/'', a)"
      using resolve_args_acc[of "[d, c]" "f @ ''/''"] r by simp
    finally have args: "resolve_args (rev [d, f] @ [c]) [] = (rp @ f @ ''/'', a)" .
    have segs: "normalizeString (rp @ f @ ''/'') b = normalizeString rp b @ [f]" for b
      using normalizeString_name[OF slash] f by blast
    show ?thesis
      unfolding path_resolve_def args using f
      by (cases a) (simp_all add: segs join_on_snoc Let_def)
  qed
  then show ?thesis by blast
qed

lemma cache_file_name:
  "\<exists>pre. \<forall>f. f \<noteq> [] \<and> CHR ''/'' \<notin> set f \<and> f \<noteq> ''.'' \<and> f \<noteq> ''..''
            \<longrightarrow> cache_file c h f = pre @ f"
  unfolding cache_file_def by (rule path_resolve_name)

lemma cache_files_distinct [simp]:
  "cache_file c h GIT_SERVER_FILE \<noteq> cache_file c h GIT_TOKEN_FILE"
  "cache_file c h GIT_SERVER_FILE \<noteq> cache_file c h GIT_OWN_FILE"
  "cache_file c h GIT_SERVER_FILE \<noteq> cache_file c h GIT_LOGIN_FILE"
  "cache_file c h GIT_TOKEN_FILE \<noteq> cache_file c h GIT_SERVER_FILE"
  "cache_file c h GIT_TOKEN_FILE \<noteq> cache_file c h GIT_OWN_FILE"
  "cache_file c h GIT_TOKEN_FILE \<noteq> cache_file c h GIT_LOGIN_FILE"
  "cache_file c h GIT_OWN_FILE \<noteq> cache_file c h GIT_SERVER_FILE"
  "cache_file c h GIT_OWN_FILE \<noteq> cache_file c h GIT_TOKEN_FILE"
  "cache_file c h GIT_OWN_FILE \<noteq> cache_file c h GIT_LOGIN_FILE"
  "cache_file c h GIT_LOGIN_FILE \<noteq> cache_file c h GIT_SERVER_FILE"
  "cache_file c h GIT_LOGIN_FILE \<noteq> cache_file c h GIT_TOKEN_FILE"
  "cache_file c h GIT_LOGIN_FILE \<noteq> cache_file c h GIT_OWN_FILE"
proof -
  from cache_file_name[of c h] obtain pre where
    pre: "\<And>f. f \<noteq> [] \<and> CHR ''/'' \<notin> set f \<and> f \<noteq> ''.'' \<and> f \<noteq> ''..''
            \<Longrightarrow> cache_file c h f = pre @ f"
    by blast
  have s: "cache_file c h GIT_SERVER_FILE = pre @ GIT_SERVER_FILE"
    by (rule pre) (simp add: GIT_SERVER_FILE_def)
  have t: "cache_file c h GIT_TOKEN_FILE = pre @ GIT_TOKEN_FILE"
    by (rule pre) (simp add: GIT_TOKEN_FILE_def)
  have w: "cache_file c h GIT_OWN_FILE = pre @ GIT_OWN_FILE"
    by (rule pre) (simp add: GIT_OWN_FILE_def)
  have l: "cache_file c h GIT_LOGIN_FILE = pre @ GIT_LOGIN_FILE"
    by (rule pre) (simp add: GIT_LOGIN_FILE_def)
  show
    "cache_file c h GIT_SERVER_FILE \<noteq> cache_file c h GIT_TOKEN_FILE"
    "cache_file c h GIT_SERVER_FILE \<noteq> cache_file c h GIT_OWN_FILE"
    "cache_file c h GIT_SERVER_FILE \<noteq> cache_file c h GIT_LOGIN_FILE"
    "cache_file c h GIT_TOKEN_FILE \<noteq> cache_file c h GIT_SERVER_FILE"
    "cache_file c h GIT_TOKEN_FILE \<noteq> cache_file c h GIT_OWN_FILE"
    "cache_file c h GIT_TOKEN_FILE \<noteq> cache_file c h GIT_LOGIN_FILE"
    "cache_file c h GIT_OWN_FILE \<noteq> cache_file c h GIT_SERVER_FILE"
    "cache_file c h GIT_OWN_FILE \<noteq> cache_file c h GIT_TOKEN_FILE"
    "cache_file c h GIT_OWN_FILE \<noteq> cache_file c h GIT_LOGIN_FILE"
    "cache_file c h GIT_LOGIN_FILE \<noteq> cache_file c h GIT_SERVER_FILE"
    "cache_file c h GIT_LOGIN_FILE \<noteq> cache_file c h GIT_TOKEN_FILE"
    "cache_file c h GIT_LOGIN_FILE \<noteq> cache_file c h GIT_OWN_FILE"
    unfolding s t w l
    by (simp_all add: GIT_SERVER_FILE_def GIT_TOKEN_FILE_def GIT_OWN_FILE_def GIT_LOGIN_FILE_def)
qed

lemma last_differs: "xs \<noteq> [] \<Longrightarrow> ys \<noteq> [] \<Longrightarrow> last xs \<noteq> last ys \<Longrightarrow> a @ xs \<noteq> b @ ys"
  by (metis last_appendR)

lemma ignore_file_not_cached [simp]:
  "cache_file c h GIT_SERVER_FILE \<noteq> path_resolve c' [d, GIT_IGNORE_FILE]"
  "cache_file c h GIT_TOKEN_FILE \<noteq> path_resolve c' [d, GIT_IGNORE_FILE]"
  "cache_file c h GIT_OWN_FILE \<noteq> path_resolve c' [d, GIT_IGNORE_FILE]"
  "cache_file c h GIT_LOGIN_FILE \<noteq> path_resolve c' [d, GIT_IGNORE_FILE]"
proof -
  from cache_file_name[of c h] obtain pre where
    pre: "\<And>f. f \<noteq> [] \<and> CHR ''/'' \<notin> set f \<and> f \<noteq> ''.'' \<and> f \<noteq> ''..''
            \<Longrightarrow> cache_file c h f = pre @ f"
    by blast
  from path_resolve_name[of c' d] obtain pre' where
    pre': "\<And>f. f \<noteq> [] \<and> CHR ''/'' \<notin> set f \<and> f \<noteq> ''.'' \<and> f \<noteq> ''..''
            \<Longrightarrow> path_resolve c' [d, f] = pre' @ f"
    by blast
  have s: "cache_file c h GIT_SERVER_FILE = pre @ GIT_SERVER_FILE"
    by (rule pre) (simp add: GIT_SERVER_FILE_def)
  have t: "cache_file c h GIT_TOKEN_FILE = pre @ GIT_TOKEN_FILE"
    by (rule pre) (simp add: GIT_TOKEN_FILE_def)
  have w: "cache_file c h GIT_OWN_FILE = pre @ GIT_OWN_FILE"
    by (rule pre) (simp add: GIT_OWN_FILE_def)
  have l: "cache_file c h GIT_LOGIN_FILE = pre @ GIT_LOGIN_FILE"
    by (rule pre) (simp add: GIT_LOGIN_FILE_def)
  have i: "path_resolve c' [d, GIT_IGNORE_FILE] = pre' @ GIT_IGNORE_FILE"
    by (rule pre') (simp add: GIT_IGNORE_FILE_def)
  show "cache_file c h GIT_SERVER_FILE \<noteq> path_resolve c' [d, GIT_IGNORE_FILE]"
    unfolding s i by (rule last_differs) (simp_all add: GIT_IGNORE_FILE_def GIT_SERVER_FILE_def)
  show "cache_file c h GIT_TOKEN_FILE \<noteq> path_resolve c' [d, GIT_IGNORE_FILE]"
    unfolding t i by (rule last_differs) (simp_all add: GIT_IGNORE_FILE_def GIT_TOKEN_FILE_def)
  show "cache_file c h GIT_OWN_FILE \<noteq> path_resolve c' [d, GIT_IGNORE_FILE]"
    unfolding w i by (rule last_differs) (simp_all add: GIT_IGNORE_FILE_def GIT_OWN_FILE_def)
  show "cache_file c h GIT_LOGIN_FILE \<noteq> path_resolve c' [d, GIT_IGNORE_FILE]"
    unfolding l i by (rule last_differs) (simp_all add: GIT_IGNORE_FILE_def GIT_LOGIN_FILE_def)
qed

lemma homePath_update_same: "homePath g = Some h \<Longrightarrow> g\<lparr>homePath := Some h\<rparr> = g"
  by (cases g) simp

lemma checkHomePath_run:
  "checkHomePath env g =
     (if existsSync env (events g @ [Log Verbose [''home'', home_of env (homePath g)],
                                     EnsureDir (home_of env (homePath g)),
                                     ExistsSync (home_of env (homePath g))])
      then Some (Return ()
        (g\<lparr>homePath := Some (home_of env (homePath g)),
           events := events g @ [Log Verbose [''home'', home_of env (homePath g)],
                                 EnsureDir (home_of env (homePath g)),
                                 ExistsSync (home_of env (homePath g))]\<rparr>))
      else Some (Throw HomeDirectoryUnavailable
        (g\<lparr>homePath := Some (home_of env (homePath g)),
           events := events g @ [Log Verbose [''home'', home_of env (homePath g)],
                                 EnsureDir (home_of env (homePath g)),
                                 ExistsSync (home_of env (homePath g))]\<rparr>)))"
proof (cases "truthy (homePath g)")
  case True
  then obtain h where hp: "homePath g = Some h" and h: "h \<noteq> []"
    by (cases "homePath g") (simp_all add: truthy_def)
  then show ?thesis
    by (simp add: checkHomePath_def home_of_def homePath_update_same)
next
  case False
  then show ?thesis
    by (simp add: checkHomePath_def home_of_def)
qed

lemma checkUserAndOrgs_Return:
  assumes "checkUserAndOrgs env g = Some (Return u g')"
  shows "kept g' = kept g \<and> prompts (new_events g (checkUserAndOrgs env g)) = []"
  using assms
  by (auto simp: checkUserAndOrgs_def kept_def prompts_def new_events_def state_of_def
           split: option.splits if_splits)

lemma checkUserAndOrgs_run:
  assumes "gitServer g = Some s" and "getUser env (events g @ [GetUser]) = Some usr"
  shows "checkUserAndOrgs env g = Some (Return ()
           (g\<lparr>user := Some usr, orgs := Some (getOrgs env (events g @ [GetUser, GetOrgs])),
              events := events g @ [GetUser, GetOrgs,
                Log Success [server_type env s @ '' user and organisations fetched'']]\<rparr>))"
  using assms by (simp add: checkUserAndOrgs_def)

lemma checkRepo_Return:
  assumes "checkRepo env g = Some (Return u g')"
  shows "kept g' = kept g"
  using assms
  by (auto simp: checkRepo_def kept_def split: option.splits if_splits)

lemma checkRepo_run:
  assumes "gitServer g = Some s"
    and "getRepo env (events g @ [GetRepo (login g) (name g)]) = Some r"
  shows "checkRepo env g = Some (Return ()
           (g\<lparr>repo := Some r,
              events := events g @ [GetRepo (login g) (name g),
                Log Success [''remote repository fetched'']]\<rparr>))"
  using assms by (simp add: checkRepo_def)

lemma checkGitIgnore_run:
  "checkGitIgnore env g = Some (Return ()
     (if files g (path_resolve (cwd env) [(dir g), GIT_IGNORE_FILE]) = None
      then g\<lparr>files := (files g)(path_resolve (cwd env) [(dir g), GIT_IGNORE_FILE] \<mapsto> default_gitignore),
             events := events g @ [Log Success [''.gitignore written'']]\<rparr>
      else g))"
  by (simp add: checkGitIgnore_def)

lemma init_existing_run:
  assumes "gitServer g = Some s"
    and "existsSync env (events g @ [ExistsSync (path_resolve (cwd env) [(dir g), GIT_ROOT_DIR])])"
  shows "init env g = Some (Return ()
           (g\<lparr>remote := Some (getRemote env s (login g) (name g)),
              events := events g @ [ExistsSync (path_resolve (cwd env) [(dir g), GIT_ROOT_DIR]),
                Log Success [''git already initialised'']]\<rparr>))"
  using assms by (simp add: init_def)

lemma initCommit_kept:
  assumes "initCommit env g = Some (Return u g')"
  shows "kept g' = kept g"
proof -
  from initCommit_Return[OF assms] obtain evs where "g' = g\<lparr>events := events g @ evs\<rparr>"
    by blast
  then show ?thesis by (simp add: kept_def)
qed

lemma init_Return:
  assumes "init env g = Some (Return u g')"
  shows "kept g' = kept g"
proof -
  from assms obtain s where s: "gitServer g = Some s"
    by (auto simp: init_def split: option.splits)
  show ?thesis
  proof (cases "existsSync env (events g @ [ExistsSync (path_resolve (cwd env) [(dir g), GIT_ROOT_DIR])])")
    case True
    with assms s show ?thesis
      by (auto simp: init_existing_run kept_def)
  next
    case False
    with assms s show ?thesis
      by (auto simp: init_def split: option.splits sum.splits if_splits dest!: initCommit_kept)
         (simp_all add: kept_def)
  qed
qed


lemma checkHomePath_Return:
  assumes "checkHomePath env g = Some (Return u g')"
  shows "homePath g' = Some (home_of env (homePath g)) \<and> files g' = files g \<and> dir g' = dir g"
  using assms by (auto simp: checkHomePath_run split: if_splits)

lemma checkGitServer_Return:
  assumes "checkGitServer env g = Some (Return u g')"
  shows "\<exists>h v. homePath g = Some h
           \<and> files g' (cache_file (cwd env) h GIT_SERVER_FILE) = Some v
           \<and> gitServer g' = createGitServer v
           \<and> (\<forall>p. p \<noteq> cache_file (cwd env) h GIT_SERVER_FILE \<longrightarrow> files g' p = files g p)
           \<and> homePath g' = homePath g \<and> dir g' = dir g"
proof -
  from checkGitServer_needs[OF assms] obtain h where h: "homePath g = Some h" by blast
  show ?thesis
  proof (cases "\<not> truthy (files g (cache_file (cwd env) h GIT_SERVER_FILE)) \<or> refreshServer g")
    case True
    with assms h show ?thesis
      by (auto simp: checkGitServer_run[OF h])
  next
    case False
    then have "files g (cache_file (cwd env) h GIT_SERVER_FILE)
                 = Some (string_of (files g (cache_file (cwd env) h GIT_SERVER_FILE)))"
      by (simp add: truthy_Some)
    with False assms h show ?thesis
      by (auto simp: checkGitServer_run[OF h])
  qed
qed

lemma checkGitToken_Return:
  assumes "checkGitToken env g = Some (Return u g')"
  shows "\<exists>h s t. homePath g = Some h \<and> gitServer g = Some s
           \<and> files g' (cache_file (cwd env) h GIT_TOKEN_FILE) = Some t
           \<and> token g' = Some t
           \<and> (\<forall>p. p \<noteq> cache_file (cwd env) h GIT_TOKEN_FILE \<longrightarrow> files g' p = files g p)
           \<and> gitServer g' = gitServer g \<and> homePath g' = homePath g \<and> dir g' = dir g"
proof -
  from checkGitToken_needs[OF assms] obtain h s where
    h: "homePath g = Some h" and s: "gitServer g = Some s" by blast
  show ?thesis
  proof (cases "\<not> truthy (files g (cache_file (cwd env) h GIT_TOKEN_FILE)) \<or> refreshToken g")
    case True
    with assms h s show ?thesis
      by (auto simp: checkGitToken_run[OF h s])
  next
    case False
    then have "files g (cache_file (cwd env) h GIT_TOKEN_FILE)
                 = Some (string_of (files g (cache_file (cwd env) h GIT_TOKEN_FILE)))"
      by (simp add: truthy_Some)
    with False assms h s show ?thesis
      by (auto simp: checkGitToken_run[OF h s])
  qed
qed

lemma checkGitOwner_cached_run:
  assumes "homePath g = Some h"
    and "files g (cache_file (cwd env) h GIT_OWN_FILE) = Some own" and "own \<noteq> []"
    and "files g (cache_file (cwd env) h GIT_LOGIN_FILE) = Some l" and "l \<noteq> []"
    and "\<not> refreshOwner g"
  shows "checkGitOwner env g = Some (Return ()
           (g\<lparr>owner := own, login := Some l,
              events := events g @
                [EnsureDir (path_resolve (cwd env) [h, GIT_ROOT_DIR]), EnsureDir (path_resolve (cwd env) [h, GIT_ROOT_DIR]),
                 Log Success [''git owner read'', own],
                 Log Success [''git login read'', l]]\<rparr>))"
  using assms by (simp add: checkGitOwner_def createPath_run)

lemma checkGitOwner_Return:
  assumes "checkGitOwner env g = Some (Return u g')"
  shows "\<exists>h own l. homePath g = Some h
           \<and> files g' (cache_file (cwd env) h GIT_OWN_FILE) = Some own
           \<and> files g' (cache_file (cwd env) h GIT_LOGIN_FILE) = Some l
           \<and> owner g' = own \<and> login g' = Some l
           \<and> (\<forall>p. p \<noteq> cache_file (cwd env) h GIT_OWN_FILE \<longrightarrow> p \<noteq> cache_file (cwd env) h GIT_LOGIN_FILE
                  \<longrightarrow> files g' p = files g p)
           \<and> gitServer g' = gitServer g \<and> token g' = token g
           \<and> homePath g' = homePath g \<and> dir g' = dir g"
proof -
  from assms obtain h where h: "homePath g = Some h"
    by (auto simp: checkGitOwner_def createPath_run split: option.splits)
  let ?po = "cache_file (cwd env) h GIT_OWN_FILE" and ?pl = "cache_file (cwd env) h GIT_LOGIN_FILE"
  show ?thesis
  proof (cases "\<not> truthy (files g ?po) \<or> \<not> truthy (files g ?pl) \<or> refreshOwner g")
    case True
    with assms h show ?thesis
      by (auto simp: checkGitOwner_def createPath_run split: option.splits if_splits)
  next
    case False
    then obtain own l where c: "files g ?po = Some own" "own \<noteq> []" "files g ?pl = Some l" "l \<noteq> []"
      "\<not> refreshOwner g"
      by (cases "files g ?po"; cases "files g ?pl") (auto simp: truthy_def)
    from assms show ?thesis
      unfolding checkGitOwner_cached_run[OF h c] using h c by auto
  qed
qed

lemma checkGitIgnore_Return:
  assumes "checkGitIgnore env g = Some (Return u g')"
  shows "(\<forall>p. p \<noteq> path_resolve (cwd env) [(dir g), GIT_IGNORE_FILE] \<longrightarrow> files g' p = files g p)
       \<and> gitServer g' = gitServer g \<and> token g' = token g \<and> owner g' = owner g
       \<and> login g' = login g \<and> homePath g' = homePath g \<and> dir g' = dir g"
  using assms by (auto simp: checkGitIgnore_run split: if_splits)

subsection \<open>Refresh flags force a prompt\<close>

lemma checkGitServer_refresh_prompts:
  assumes "refreshServer g" and "homePath g = Some h"
  shows "Inquirer (ListPrompt GIT_SERVER_TYPE) \<in> set (new_events g (checkGitServer env g))"
  using assms by (simp add: checkGitServer_run[OF assms(2)] new_events_def state_of_def)

lemma checkGitToken_refresh_prompts:
  assumes "refreshToken g" and "homePath g = Some h" and "gitServer g = Some s"
  shows "Inquirer PasswordPrompt \<in> set (new_events g (checkGitToken env g))"
  using assms by (simp add: checkGitToken_run[OF assms(2,3)] new_events_def state_of_def)

lemma checkGitOwner_refresh_prompts:
  assumes "refreshOwner g" and "homePath g = Some h" and "gitServer g = Some s"
    and "orgs g = Some os"
  shows "Inquirer (ListPrompt (if length os > 0 then GIT_OWNER_TYPE else GIT_OWNER_TYPE_ONLY))
           \<in> set (new_events g (checkGitOwner env g))"
  using assms
  by (auto simp: checkGitOwner_def createPath_run new_events_def state_of_def
           split: option.splits)


subsection \<open>A run of \<open>prepare\<close> and the cache\<close>

lemma prepare_caches_context:
  assumes "prepare env g = Some (Return u g1)"
  shows "\<exists>v t own l s.
           files g1 (cache_file (cwd env) (home_of env (homePath g)) GIT_SERVER_FILE) = Some v
         \<and> createGitServer v = Some s
         \<and> files g1 (cache_file (cwd env) (home_of env (homePath g)) GIT_TOKEN_FILE) = Some t
         \<and> files g1 (cache_file (cwd env) (home_of env (homePath g)) GIT_OWN_FILE) = Some own
         \<and> files g1 (cache_file (cwd env) (home_of env (homePath g)) GIT_LOGIN_FILE) = Some l
         \<and> resolved_context g1 = (Some s, Some t, own, Some l)"
proof -
  let ?h = "home_of env (homePath g)"
  from assms obtain ga gb gc gd ge gf gg where
    c1: "checkHomePath env g = Some (Return () ga)" and
    c2: "checkGitServer env ga = Some (Return () gb)" and
    c3: "checkGitToken env gb = Some (Return () gc)" and
    c4: "checkUserAndOrgs env gc = Some (Return () gd)" and
    c5: "checkGitOwner env gd = Some (Return () ge)" and
    c6: "checkRepo env ge = Some (Return () gf)" and
    c7: "checkGitIgnore env gf = Some (Return () gg)" and
    c8: "init env gg = Some (Return u g1)"
    by (auto simp: prepare_def andThen_eq_Return)
  from checkHomePath_Return[OF c1] have a: "homePath ga = Some ?h" by simp
  from checkGitServer_Return[OF c2] a obtain v where
    b: "files gb (cache_file (cwd env) ?h GIT_SERVER_FILE) = Some v" "gitServer gb = createGitServer v"
       "homePath gb = Some ?h"
    by auto
  from checkGitToken_Return[OF c3] b obtain s t where
    c: "files gc (cache_file (cwd env) ?h GIT_SERVER_FILE) = Some v" "gitServer gc = Some s"
       "createGitServer v = Some s"
       "files gc (cache_file (cwd env) ?h GIT_TOKEN_FILE) = Some t" "token gc = Some t"
       "homePath gc = Some ?h"
    by auto
  from checkUserAndOrgs_Return[OF c4] c have
    d: "files gd (cache_file (cwd env) ?h GIT_SERVER_FILE) = Some v" "gitServer gd = Some s"
       "files gd (cache_file (cwd env) ?h GIT_TOKEN_FILE) = Some t" "token gd = Some t"
       "homePath gd = Some ?h"
    by (simp_all add: kept_def)
  from checkGitOwner_Return[OF c5] d obtain own l where
    e: "files ge (cache_file (cwd env) ?h GIT_SERVER_FILE) = Some v" "gitServer ge = Some s"
       "files ge (cache_file (cwd env) ?h GIT_TOKEN_FILE) = Some t" "token ge = Some t"
       "files ge (cache_file (cwd env) ?h GIT_OWN_FILE) = Some own" "owner ge = own"
       "files ge (cache_file (cwd env) ?h GIT_LOGIN_FILE) = Some l" "login ge = Some l"
    by auto
  from checkRepo_Return[OF c6] e have
    f: "files gf (cache_file (cwd env) ?h GIT_SERVER_FILE) = Some v" "gitServer gf = Some s"
       "files gf (cache_file (cwd env) ?h GIT_TOKEN_FILE) = Some t" "token gf = Some t"
       "files gf (cache_file (cwd env) ?h GIT_OWN_FILE) = Some own" "owner gf = own"
       "files gf (cache_file (cwd env) ?h GIT_LOGIN_FILE) = Some l" "login gf = Some l"
    by (simp_all add: kept_def)
  from checkGitIgnore_Return[OF c7] f have
    g: "files gg (cache_file (cwd env) ?h GIT_SERVER_FILE) = Some v" "gitServer gg = Some s"
       "files gg (cache_file (cwd env) ?h GIT_TOKEN_FILE) = Some t" "token gg = Some t"
       "files gg (cache_file (cwd env) ?h GIT_OWN_FILE) = Some own" "owner gg = own"
       "files gg (cache_file (cwd env) ?h GIT_LOGIN_FILE) = Some l" "login gg = Some l"
    by simp_all
  from init_Return[OF c8] g have
    "files g1 (cache_file (cwd env) ?h GIT_SERVER_FILE) = Some v"
    "files g1 (cache_file (cwd env) ?h GIT_TOKEN_FILE) = Some t"
    "files g1 (cache_file (cwd env) ?h GIT_OWN_FILE) = Some own"
    "files g1 (cache_file (cwd env) ?h GIT_LOGIN_FILE) = Some l"
    "resolved_context g1 = (Some s, Some t, own, Some l)"
    by (simp_all add: kept_def resolved_context_def)
  with c(3) show ?thesis by blast
qed

lemma prepare_cached_run:
  assumes flags: "\<not> refreshServer g" "\<not> refreshToken g" "\<not> refreshOwner g"
    and home: "home_of env (homePath g) = h"
    and server: "files g (cache_file (cwd env) h GIT_SERVER_FILE) = Some v" "createGitServer v = Some s"
    and tok: "files g (cache_file (cwd env) h GIT_TOKEN_FILE) = Some t" "t \<noteq> []"
    and own: "files g (cache_file (cwd env) h GIT_OWN_FILE) = Some own" "own \<noteq> []"
    and login: "files g (cache_file (cwd env) h GIT_LOGIN_FILE) = Some l" "l \<noteq> []"
    and dirs: "\<forall>tr. existsSync env tr"
    and identity: "\<forall>tr. getUser env tr \<noteq> None"
    and repository: "\<forall>tr. getRepo env tr \<noteq> None"
  shows "\<exists>g'. prepare env g = Some (Return () g')
            \<and> prompts (new_events g (prepare env g)) = []
            \<and> resolved_context g' = (Some s, Some t, own, Some l)"
proof -
  have v: "v \<noteq> []"
    using server(2) by (auto simp: createGitServer_def GITHUB_def GITEE_def split: if_splits)
  let ?root = "path_resolve (cwd env) [h, GIT_ROOT_DIR]"
  define ga where "ga = g\<lparr>homePath := Some h,
      events := events g @ [Log Verbose [''home'', h], EnsureDir h, ExistsSync h]\<rparr>"
  define gb where "gb = ga\<lparr>gitServer := Some s,
      events := events ga @ [EnsureDir ?root, Log Success [''git server read'', v]]\<rparr>"
  define gc where "gc = gb\<lparr>token := Some t,
      events := events gb @ [EnsureDir ?root, Log Verbose [''token'', t],
        Log Success [''token read'', cache_file (cwd env) h GIT_TOKEN_FILE], SetToken t]\<rparr>"
  obtain usr where usr: "getUser env (events gc @ [GetUser]) = Some usr"
    using identity by (metis not_Some_eq)
  define gd where "gd = gc\<lparr>user := Some usr,
      orgs := Some (getOrgs env (events gc @ [GetUser, GetOrgs])),
      events := events gc @ [GetUser, GetOrgs,
        Log Success [server_type env s @ '' user and organisations fetched'']]\<rparr>"
  define ge where "ge = gd\<lparr>owner := own, login := Some l,
      events := events gd @ [EnsureDir ?root, EnsureDir ?root,
        Log Success [''git owner read'', own], Log Success [''git login read'', l]]\<rparr>"
  obtain r where r: "getRepo env (events ge @ [GetRepo (login ge) (name ge)]) = Some r"
    using repository by (metis not_Some_eq)
  define gf where "gf = ge\<lparr>repo := Some r,
      events := events ge @ [GetRepo (login ge) (name ge),
        Log Success [''remote repository fetched'']]\<rparr>"
  define gg where "gg =
     (if files gf (path_resolve (cwd env) [(dir gf), GIT_IGNORE_FILE]) = None
      then gf\<lparr>files := (files gf)(path_resolve (cwd env) [(dir gf), GIT_IGNORE_FILE] \<mapsto> default_gitignore),
             events := events gf @ [Log Success [''.gitignore written'']]\<rparr>
      else gf)"
  define gh where "gh = gg\<lparr>remote := Some (getRemote env s (login gg) (name gg)),
      events := events gg @ [ExistsSync (path_resolve (cwd env) [(dir gg), GIT_ROOT_DIR]),
        Log Success [''git already initialised'']]\<rparr>"
  have s1: "checkHomePath env g = Some (Return () ga)"
    using dirs home by (simp add: checkHomePath_run ga_def)
  have ha: "homePath ga = Some h"
    by (simp add: ga_def)
  have fa: "files ga = files g" "refreshServer ga = refreshServer g"
    by (simp_all add: ga_def)
  have s2: "checkGitServer env ga = Some (Return () gb)"
    using flags server v fa by (simp add: checkGitServer_run[OF ha] gb_def)
  have hb: "homePath gb = Some h" "gitServer gb = Some s"
    by (simp_all add: ga_def gb_def)
  have fb: "files gb = files g" "refreshToken gb = refreshToken g"
    by (simp_all add: ga_def gb_def)
  have s3: "checkGitToken env gb = Some (Return () gc)"
    using flags tok fb by (simp add: checkGitToken_run[OF hb] gc_def)
  have hc: "gitServer gc = Some s"
    by (simp add: gb_def gc_def)
  have s4: "checkUserAndOrgs env gc = Some (Return () gd)"
    unfolding gd_def by (rule checkUserAndOrgs_run[OF hc usr])
  have hd: "homePath gd = Some h"
    "files gd (cache_file (cwd env) h GIT_OWN_FILE) = Some own" "own \<noteq> []"
    "files gd (cache_file (cwd env) h GIT_LOGIN_FILE) = Some l" "l \<noteq> []"
    "\<not> refreshOwner gd"
    using flags own login by (simp_all add: ga_def gb_def gc_def gd_def)
  have s5: "checkGitOwner env gd = Some (Return () ge)"
    unfolding ge_def by (rule checkGitOwner_cached_run[OF hd])
  have he: "gitServer ge = Some s"
    by (simp add: gb_def gc_def gd_def ge_def)
  have s6: "checkRepo env ge = Some (Return () gf)"
    unfolding gf_def by (rule checkRepo_run[OF he r])
  have s7: "checkGitIgnore env gf = Some (Return () gg)"
    unfolding gg_def by (rule checkGitIgnore_run)
  have hg: "gitServer gg = Some s"
    by (simp add: gb_def gc_def gd_def ge_def gf_def gg_def)
  have xg: "existsSync env (events gg @ [ExistsSync (path_resolve (cwd env) [(dir gg), GIT_ROOT_DIR])])"
    using dirs by simp
  have s8: "init env gg = Some (Return () gh)"
    unfolding gh_def by (rule init_existing_run[OF hg xg])
  have run: "prepare env g = Some (Return () gh)"
    by (simp add: prepare_def andThen_def s1 s2 s3 s4 s5 s6 s7 s8)
  have silent: "prompts (new_events g (prepare env g)) = []"
    unfolding run
    by (simp add: new_events_def state_of_def prompts_def
        ga_def gb_def gc_def gd_def ge_def gf_def gg_def gh_def)
  have ctx: "resolved_context gh = (Some s, Some t, own, Some l)"
    by (simp add: resolved_context_def ga_def gb_def gc_def gd_def ge_def gf_def gg_def gh_def)
  from run silent ctx show ?thesis by blast
qed

section \<open>The claims\<close>

subsection \<open>C1: how a failed pull is classified\<close>

text \<open>
  Claim C1, as amended.  A pull that fails is classified by its message: a message
  with the public-key signature throws the SSH-setup error (and the process is not
  exited there); a message with \<open>Couldn't find remote ref <branch>\<close> is logged at
  notice level and then the process exits with code 0; any other message is logged as
  an error and then the process exits with code 0.  The missing-branch case is not a
  case in which the workflow continues.
\<close>

theorem pullRemoteRepo_classifies:
  assumes "git_run env (events g @ [Log Notice [''sync remote branch '' @ b],
                                   GitPull ''origin'' b opts]) = Some message"
  shows "(string_indexOf message ''Permission denied (publickey)'' \<ge> 0 \<and> gitServer g = Some s
            \<longrightarrow> pullRemoteRepo env b opts g =
                  Some (Throw (SSHKeyMissing (getSSHKeysUrl env s) (getSSHKeysHelpUrl env s))
                    (g\<lparr>events := events g @ [Log Notice [''sync remote branch '' @ b],
                                             GitPull ''origin'' b opts]\<rparr>)))
       \<and> (string_indexOf message ''Permission denied (publickey)'' < 0
          \<and> string_indexOf message (''Couldn't find remote ref '' @ b) \<ge> 0
            \<longrightarrow> pullRemoteRepo env b opts g =
                  Some (Exit 0
                    (g\<lparr>events := events g @ [Log Notice [''sync remote branch '' @ b],
                                             GitPull ''origin'' b opts,
                                             Log Notice [''fetching remote ['' @ b @ ''] failed'']]\<rparr>)))
       \<and> (string_indexOf message ''Permission denied (publickey)'' < 0
          \<and> string_indexOf message (''Couldn't find remote ref '' @ b) < 0
            \<longrightarrow> pullRemoteRepo env b opts g =
                  Some (Exit 0
                    (g\<lparr>events := events g @ [Log Notice [''sync remote branch '' @ b],
                                             GitPull ''origin'' b opts,
                                             Log Failure [message]]\<rparr>)))"
  using assms by (simp add: pullRemoteRepo_run)

text \<open>
  The theorem at three rejected pulls of \<open>master\<close> on an object whose platform
  client is the GitHub one: one with the public-key message, one with the
  missing-branch message, one with another message.
\<close>

theorem pullRemoteRepo_classifies_witness:
  "pullRemoteRepo
     (calm_env\<lparr>git_run := \<lambda>tr. Some ''git@example.org: Permission denied (publickey).''\<rparr>)
     ''master'' [] (fresh_git\<lparr>gitServer := Some Github\<rparr>)
   = Some (Throw (SSHKeyMissing ''https://example.org/keys'' ''https://example.org/keys-help'')
       (fresh_git\<lparr>gitServer := Some Github,
                  events := [Log Notice [''sync remote branch master''],
                             GitPull ''origin'' ''master'' []]\<rparr>))
   \<and> pullRemoteRepo
       (calm_env\<lparr>git_run := \<lambda>tr. Some ''fatal: Couldn't find remote ref master''\<rparr>)
       ''master'' [] (fresh_git\<lparr>gitServer := Some Github\<rparr>)
     = Some (Exit 0
         (fresh_git\<lparr>gitServer := Some Github,
                    events := [Log Notice [''sync remote branch master''],
                               GitPull ''origin'' ''master'' [],
                               Log Notice [''fetching remote [master] failed'']]\<rparr>))
   \<and> pullRemoteRepo
       (calm_env\<lparr>git_run := \<lambda>tr. Some ''fatal: unable to access the remote''\<rparr>)
       ''master'' [] (fresh_git\<lparr>gitServer := Some Github\<rparr>)
     = Some (Exit 0
         (fresh_git\<lparr>gitServer := Some Github,
                    events := [Log Notice [''sync remote branch master''],
                               GitPull ''origin'' ''master'' [],
                               Log Failure [''fatal: unable to access the remote'']]\<rparr>))"
proof -
  let ?g = "fresh_git\<lparr>gitServer := Some Github\<rparr>"
  let ?tr = "events ?g @ [Log Notice [''sync remote branch '' @ ''master''],
                         GitPull ''origin'' ''master'' []]"
  let ?key = "''git@example.org: Permission denied (publickey).''"
  let ?ref = "''fatal: Couldn't find remote ref master''"
  let ?net = "''fatal: unable to access the remote''"
  have rejected:
    "git_run (calm_env\<lparr>git_run := \<lambda>tr. Some ?key\<rparr>) ?tr = Some ?key"
    "git_run (calm_env\<lparr>git_run := \<lambda>tr. Some ?ref\<rparr>) ?tr = Some ?ref"
    "git_run (calm_env\<lparr>git_run := \<lambda>tr. Some ?net\<rparr>) ?tr = Some ?net"
    by simp_all
  have found:
    "string_indexOf ?key ''Permission denied (publickey)'' \<ge> 0"
    "string_indexOf ?ref ''Permission denied (publickey)'' < 0"
    "string_indexOf ?ref (''Couldn't find remote ref '' @ ''master'') \<ge> 0"
    "string_indexOf ?net ''Permission denied (publickey)'' < 0"
    "string_indexOf ?net (''Couldn't find remote ref '' @ ''master'') < 0"
    by code_simp+
  have nil: "events ?g = []" "gitServer ?g = Some Github"
    by (simp_all add: fresh_git_def new_Git_def)
  show ?thesis
    using pullRemoteRepo_classifies[OF rejected(1), of Github]
          pullRemoteRepo_classifies[OF rejected(2), of Github]
          pullRemoteRepo_classifies[OF rejected(3), of Github]
          found nil
    by (simp add: calm_env_def)
qed

text \<open>
  The claim as stated fails: after a pull rejected with the missing-branch message
  the process has exited, and a push sequenced after the pull is never made.
\<close>

theorem pullRemoteRepo_missing_ref_exits:
  "pullRemoteRepo
     (calm_env\<lparr>git_run := \<lambda>tr. Some ''fatal: Couldn't find remote ref dev/1.0.0''\<rparr>)
     ''dev/1.0.0'' [] fresh_git
   = Some (Exit 0 (fresh_git\<lparr>events :=
       [Log Notice [''sync remote branch dev/1.0.0''], GitPull ''origin'' ''dev/1.0.0'' [],
        Log Notice [''fetching remote [dev/1.0.0] failed'']]\<rparr>))
   \<and> git_calls (new_events fresh_git
        (andThen (pullRemoteRepo
                    (calm_env\<lparr>git_run := \<lambda>tr. Some ''fatal: Couldn't find remote ref dev/1.0.0''\<rparr>)
                    ''dev/1.0.0'' [])
                 (\<lambda>_. pushRemoteRepo
                    (calm_env\<lparr>git_run := \<lambda>tr. Some ''fatal: Couldn't find remote ref dev/1.0.0''\<rparr>)
                    ''dev/1.0.0'') fresh_git))
     = [GitPull ''origin'' ''dev/1.0.0'' []]"
  by (simp add: pullRemoteRepo_run andThen_def new_events_def state_of_def fresh_git_def new_Git_def)

subsection \<open>C2: the first push of \<open>initCommit\<close>\<close>




subsection \<open>C3: the branch name\<close>

text \<open>
  Claim C3, as amended.  Whenever the remote refs can be listed, \<open>getCorrectVersion\<close>
  returns and sets the branch to the channel (\<open>dev\<close> when none is given), a slash, and
  the version exactly as the object holds it: \<open>release\<close> and \<open>1.2.3\<close> give
  \<open>release/1.2.3\<close>, no channel and \<open>0.1.0\<close> give \<open>dev/0.1.0\<close>.  The version is not
  validated.
\<close>

theorem getCorrectVersion_branch_is_literal:
  assumes "git_listRemote env (events g @ [Log Notice [''resolving the branch''],
                                           GitListRemote [''--refs'']]) = Inr remoteList"
  shows "\<exists>g'. getCorrectVersion env type g = Some (Return () g')
            \<and> branch g' = Some ((if truthy type then string_of type else ''dev'')
                                 @ ''/'' @ version g)"
  using assms by (simp add: getCorrectVersion_run)

text \<open>The two examples of the claim.\<close>

theorem getCorrectVersion_branch_is_literal_witness:
  "(\<exists>g'. getCorrectVersion calm_env (Some ''release'') (fresh_git\<lparr>version := ''1.2.3''\<rparr>)
            = Some (Return () g') \<and> branch g' = Some ''release/1.2.3'')
   \<and> (\<exists>g'. getCorrectVersion calm_env None (fresh_git\<lparr>version := ''0.1.0''\<rparr>)
            = Some (Return () g') \<and> branch g' = Some ''dev/0.1.0'')"
proof -
  have a: "git_listRemote calm_env (events (fresh_git\<lparr>version := ''1.2.3''\<rparr>)
             @ [Log Notice [''resolving the branch''], GitListRemote [''--refs'']]) = Inr []"
    by (simp add: calm_env_def)
  have b: "git_listRemote calm_env (events (fresh_git\<lparr>version := ''0.1.0''\<rparr>)
             @ [Log Notice [''resolving the branch''], GitListRemote [''--refs'']]) = Inr []"
    by (simp add: calm_env_def)
  show ?thesis
    using getCorrectVersion_branch_is_literal[OF a, of "Some ''release''"]
          getCorrectVersion_branch_is_literal[OF b, of None]
    by (simp add: truthy_def string_of_def)
qed

text \<open>
  The claim as stated fails: \<open>1.2\<close> is not a semantic version, and it is accepted into
  the branch name.
\<close>

theorem getCorrectVersion_accepts_invalid_version:
  "\<not> semver2_valid ''1.2''
   \<and> map_option (\<lambda>r. branch (state_of r))
        (getCorrectVersion calm_env None (fresh_git\<lparr>version := ''1.2''\<rparr>))
     = Some (Some ''dev/1.2'')"
  by code_simp

subsection \<open>C4: staging and committing pending changes\<close>

text \<open>
  Claim C4.  Let the status be read.  With the five lists empty \<open>checkNotCommitted\<close>
  returns after the status call alone: nothing is staged or committed.  Otherwise
  every run that returns has staged the five lists, in order, prompted until the
  first answer that is not empty (every answer before it was empty), and committed
  exactly once, with that answer as the message; it does return
  when the git calls succeed and the operator at some point types a message; and it
  never returns (so never commits) when the operator only ever gives the empty
  message.
\<close>

theorem checkNotCommitted_noop_or_one_commit:
  assumes st: "git_status env (events g @ [GitStatus]) = Inr st"
  shows "(nothing_pending st \<longrightarrow>
            checkNotCommitted env g = Some (Return () (g\<lparr>events := events g @ [GitStatus]\<rparr>)))
       \<and> (\<not> nothing_pending st \<longrightarrow>
            (\<forall>g'. checkNotCommitted env g = Some (Return () g') \<longrightarrow>
               (\<exists>k m. m \<noteq> []
                  \<and> m = inquirer env
                          (events g @ staging st @ replicate (Suc k) (Inquirer TextPrompt))
                  \<and> (\<forall>j<k. inquirer env
                          (events g @ staging st @ replicate (Suc j) (Inquirer TextPrompt)) = [])
                  \<and> events g' =
                      events g @ staging st @ replicate (Suc k) (Inquirer TextPrompt)
                      @ [GitCommit m, Log Success [''local commit done'']])))
       \<and> (\<not> nothing_pending st \<and> (\<forall>tr. git_run env tr = None)
           \<and> (\<exists>k. inquirer env (events g @ staging st @ replicate (Suc k) (Inquirer TextPrompt)) \<noteq> [])
            \<longrightarrow> (\<exists>g'. checkNotCommitted env g = Some (Return () g')))
       \<and> (\<not> nothing_pending st \<and> (\<forall>tr. git_run env tr = None) \<and> (\<forall>tr. inquirer env tr = [])
            \<longrightarrow> checkNotCommitted env g = None)"
proof (intro conjI impI allI)
  assume "nothing_pending st"
  with st show "checkNotCommitted env g = Some (Return () (g\<lparr>events := events g @ [GitStatus]\<rparr>))"
    by (rule checkNotCommitted_clean)
next
  fix g'
  assume pending: "\<not> nothing_pending st" and ret: "checkNotCommitted env g = Some (Return () g')"
  from checkNotCommitted_pending_Return[OF st pending ret] obtain k where
    k: "inquirer env (events g @ staging st @ replicate (Suc k) (Inquirer TextPrompt)) \<noteq> []"
    "\<forall>j<k. inquirer env (events g @ staging st @ replicate (Suc j) (Inquirer TextPrompt)) = []"
    "g' = g\<lparr>events := events g @ staging st @ replicate (Suc k) (Inquirer TextPrompt)
                   @ [GitCommit (inquirer env
                        (events g @ staging st @ replicate (Suc k) (Inquirer TextPrompt))),
                      Log Success [''local commit done'']]\<rparr>"
    by blast
  show "\<exists>k m. m \<noteq> []
                  \<and> m = inquirer env
                          (events g @ staging st @ replicate (Suc k) (Inquirer TextPrompt))
                  \<and> (\<forall>j<k. inquirer env
                          (events g @ staging st @ replicate (Suc j) (Inquirer TextPrompt)) = [])
                  \<and> events g' =
                      events g @ staging st @ replicate (Suc k) (Inquirer TextPrompt)
                      @ [GitCommit m, Log Success [''local commit done'']]"
    apply (rule exI[of _ k])
    apply (rule exI[of _ "inquirer env
               (events g @ staging st @ replicate (Suc k) (Inquirer TextPrompt))"])
    apply (intro conjI)
       apply (rule k(1))
      apply (rule refl)
     apply (rule k(2))
    apply (simp add: k(3))
    done
next
  assume h: "\<not> nothing_pending st \<and> (\<forall>tr. git_run env tr = None)
           \<and> (\<exists>k. inquirer env (events g @ staging st @ replicate (Suc k) (Inquirer TextPrompt)) \<noteq> [])"
  let ?g0 = "g\<lparr>events := events g @ staging st\<rparr>"
  let ?answer = "\<lambda>k. inquirer env (events ?g0 @ replicate (Suc k) (Inquirer TextPrompt))"
  from h have "\<exists>k. ?answer k \<noteq> []" by simp
  then obtain k where k: "?answer k \<noteq> []" and least: "\<And>j. j < k \<Longrightarrow> ?answer j = []"
    using exists_least_iff[of "\<lambda>k. ?answer k \<noteq> []"] by blast
  have "promptCommitMessage env ?g0 =
          Some (Return (?answer k)
                (?g0\<lparr>events := events ?g0 @ replicate (Suc k) (Inquirer TextPrompt)\<rparr>))"
    using least k by (rule promptCommitMessage_answer)
  moreover have "checkNotCommitted env g =
           andThen (promptCommitMessage env) (\<lambda>message.
           andThen (await_unit (GitCommit message) (git_run env)) (\<lambda>_.
             log_msg Success [''local commit done''])) ?g0"
    using st h by (intro checkNotCommitted_pending) simp_all
  ultimately show "\<exists>g'. checkNotCommitted env g = Some (Return () g')"
    using h by (simp add: andThen_def)
next
  assume h: "\<not> nothing_pending st \<and> (\<forall>tr. git_run env tr = None) \<and> (\<forall>tr. inquirer env tr = [])"
  let ?g0 = "g\<lparr>events := events g @ staging st\<rparr>"
  have "promptCommitMessage env ?g0 = None"
    using h by (intro promptCommitMessage_never) simp
  moreover have "checkNotCommitted env g =
           andThen (promptCommitMessage env) (\<lambda>message.
           andThen (await_unit (GitCommit message) (git_run env)) (\<lambda>_.
             log_msg Success [''local commit done''])) ?g0"
    using st h by (intro checkNotCommitted_pending) simp_all
  ultimately show "checkNotCommitted env g = None"
    by (simp add: andThen_def)
qed


text \<open>
  The theorem at a clean tree, where only the status is read; at a tree with pending
  changes and an operator who gives the empty message twice, where the run returns
  after three prompts and one commit; and at the same tree with an operator who never
  types a message, where the run never returns.
\<close>

theorem checkNotCommitted_noop_or_one_commit_witness:
  "checkNotCommitted calm_env fresh_git = Some (Return () (fresh_git\<lparr>events := [GitStatus]\<rparr>))
   \<and> (\<exists>g'. checkNotCommitted
              (calm_env\<lparr>git_status := \<lambda>tr. Inr pending_status, inquirer := hesitant_operator\<rparr>)
              fresh_git = Some (Return () g')
          \<and> (\<exists>k m. m \<noteq> [] \<and> events g' =
                staging pending_status @ replicate (Suc k) (Inquirer TextPrompt)
                @ [GitCommit m, Log Success [''local commit done'']]))
   \<and> checkNotCommitted
        (calm_env\<lparr>git_status := \<lambda>tr. Inr pending_status, inquirer := \<lambda>tr. []\<rparr>)
        fresh_git = None"
proof -
  let ?env = "calm_env\<lparr>git_status := \<lambda>tr. Inr pending_status, inquirer := hesitant_operator\<rparr>"
  let ?mute = "calm_env\<lparr>git_status := \<lambda>tr. Inr pending_status, inquirer := \<lambda>tr. []\<rparr>"
  have clean: "git_status calm_env (events fresh_git @ [GitStatus]) = Inr clean_status"
    by (simp add: calm_env_def)
  have pending: "git_status ?env (events fresh_git @ [GitStatus]) = Inr pending_status"
    by simp
  have pending': "git_status ?mute (events fresh_git @ [GitStatus]) = Inr pending_status"
    by simp
  have none: "nothing_pending clean_status" "\<not> nothing_pending pending_status"
    by (simp_all add: nothing_pending_def clean_status_def pending_status_def)
  have calm: "\<forall>tr. git_run ?env tr = None" "\<forall>tr. git_run ?mute tr = None"
    "\<forall>tr. inquirer ?mute tr = []"
    by (simp_all add: calm_env_def)
  have "inquirer ?env (events fresh_git @ staging pending_status
          @ replicate (Suc (Suc (Suc 0))) (Inquirer TextPrompt)) \<noteq> []"
    by (simp add: hesitant_operator_def prompts_def staging_def fresh_git_def new_Git_def)
  then have typed: "\<exists>k. inquirer ?env (events fresh_git @ staging pending_status
          @ replicate (Suc k) (Inquirer TextPrompt)) \<noteq> []"
    by blast
  have nil: "events fresh_git = []"
    by (simp add: fresh_git_def new_Git_def)
  from checkNotCommitted_noop_or_one_commit[OF clean] none(1) nil
  have a: "checkNotCommitted calm_env fresh_git
             = Some (Return () (fresh_git\<lparr>events := [GitStatus]\<rparr>))"
    by simp
  from checkNotCommitted_noop_or_one_commit[OF pending] none(2) calm(1) typed nil
  have b: "\<exists>g'. checkNotCommitted ?env fresh_git = Some (Return () g')
          \<and> (\<exists>k m. m \<noteq> [] \<and> events g' =
                staging pending_status @ replicate (Suc k) (Inquirer TextPrompt)
                @ [GitCommit m, Log Success [''local commit done'']])"
    by (metis append_Nil)
  from checkNotCommitted_noop_or_one_commit[OF pending'] none(2) calm(2,3)
  have c: "checkNotCommitted ?mute fresh_git = None"
    by blast
  from a b c show ?thesis by blast
qed

subsection \<open>C5: the conflict check\<close>

text \<open>
  Claim C5.  Once the status is read, \<open>checkConflicted\<close> throws \<open>UnresolvedConflict\<close>
  exactly when the list of conflicted paths is not empty, and returns exactly when
  that list is empty.
\<close>

theorem checkConflicted_raises_iff_conflicted:
  assumes "git_status env (events g @ [Log Notice [''checking for conflicts''], GitStatus]) = Inr st"
  shows "((\<exists>g'. checkConflicted env g = Some (Throw UnresolvedConflict g')) = (conflicted st \<noteq> []))
       \<and> ((\<exists>g'. checkConflicted env g = Some (Return () g')) = (conflicted st = []))"
  using assms by (simp add: checkConflicted_run)

text \<open>The theorem at a status with one conflicted path, and at a clean status.\<close>

theorem checkConflicted_raises_iff_conflicted_witness:
  "(\<exists>g'. checkConflicted
            (calm_env\<lparr>git_status := \<lambda>tr. Inr (clean_status\<lparr>conflicted := [''src/a.js'']\<rparr>)\<rparr>)
            fresh_git = Some (Throw UnresolvedConflict g'))
   \<and> (\<exists>g'. checkConflicted calm_env fresh_git = Some (Return () g'))"
proof -
  have a: "git_status (calm_env\<lparr>git_status := \<lambda>tr. Inr (clean_status\<lparr>conflicted := [''src/a.js'']\<rparr>)\<rparr>)
             (events fresh_git @ [Log Notice [''checking for conflicts''], GitStatus])
           = Inr (clean_status\<lparr>conflicted := [''src/a.js'']\<rparr>)"
    by simp
  have b: "git_status calm_env
             (events fresh_git @ [Log Notice [''checking for conflicts''], GitStatus])
           = Inr clean_status"
    by (simp add: calm_env_def)
  show ?thesis
    using checkConflicted_raises_iff_conflicted[OF a] checkConflicted_raises_iff_conflicted[OF b]
    by (simp add: clean_status_def)
qed

subsection \<open>C6: scanning the remote refs\<close>

text \<open>
  Claim C6 fails on the code.  The expression carries the \<open>g\<close> flag and one
  expression object serves every line, so after a line that matches, the search in
  the next line starts at the index where the previous match ended.  With two
  \<open>dev\<close> branches on consecutive lines of equal length the second is never found:
  \<open>2.0.0\<close> is a valid version under \<open>refs/heads/dev/\<close> and is not extracted.  The
  example of the claim itself (\<open>1.0.0\<close> and \<open>x.y.z\<close>) gives \<open>1.0.0\<close> alone, as the claim
  says.
\<close>

theorem getRemoteBranchList_skips_line_after_match:
  "returned (getRemoteBranchList (calm_env\<lparr>git_listRemote := \<lambda>tr. Inr two_dev_refs\<rparr>)
               None fresh_git) = Some [''1.0.0'']
   \<and> semver2_valid ''2.0.0''
   \<and> string_indexOf two_dev_refs ''refs/heads/dev/2.0.0'' \<ge> 0
   \<and> returned (getRemoteBranchList (calm_env\<lparr>git_listRemote := \<lambda>tr. Inr dev_and_junk_refs\<rparr>)
               None fresh_git) = Some [''1.0.0'']"
  by code_simp

subsection \<open>C7: refresh flags and the cache\<close>

text \<open>
  Claim C7.  With its refresh flag set, each of the three cached steps prompts,
  whatever the cache holds: the platform step whenever the cache root is resolved,
  the token step whenever in addition the platform client exists, the ownership step
  whenever in addition the organisations have been fetched (these are the states the
  steps are run in by \<open>prepare\<close>).  And after a \<open>prepare\<close> that returned, a
  second \<open>prepare\<close> over the files the first one left, from the same working
  directory and with the same cache root, no refresh flag, and the token, owner and
  login entries not empty, returns without a single prompt and resolves the same
  platform client, token, owner and login, provided the directories exist and the
  host still resolves the identity and the repository.
\<close>

theorem refresh_prompts_and_cached_prepare_is_silent:
  "(refreshServer g \<and> homePath g = Some h
      \<longrightarrow> Inquirer (ListPrompt GIT_SERVER_TYPE) \<in> set (new_events g (checkGitServer env g)))
   \<and> (refreshToken g \<and> homePath g = Some h \<and> gitServer g = Some s
      \<longrightarrow> Inquirer PasswordPrompt \<in> set (new_events g (checkGitToken env g)))
   \<and> (refreshOwner g \<and> homePath g = Some h \<and> gitServer g = Some s \<and> orgs g = Some os
      \<longrightarrow> Inquirer (ListPrompt (if length os > 0 then GIT_OWNER_TYPE else GIT_OWNER_TYPE_ONLY))
             \<in> set (new_events g (checkGitOwner env g)))
   \<and> (prepare env g = Some (Return () g1)
       \<and> files g2 = files g1
       \<and> \<not> refreshServer g2 \<and> \<not> refreshToken g2 \<and> \<not> refreshOwner g2
       \<and> cwd env2 = cwd env
       \<and> home_of env2 (homePath g2) = home_of env (homePath g)
       \<and> truthy (files g1 (cache_file (cwd env) (home_of env (homePath g)) GIT_TOKEN_FILE))
       \<and> truthy (files g1 (cache_file (cwd env) (home_of env (homePath g)) GIT_OWN_FILE))
       \<and> truthy (files g1 (cache_file (cwd env) (home_of env (homePath g)) GIT_LOGIN_FILE))
       \<and> (\<forall>tr. existsSync env2 tr) \<and> (\<forall>tr. getUser env2 tr \<noteq> None)
       \<and> (\<forall>tr. getRepo env2 tr \<noteq> None)
      \<longrightarrow> (\<exists>g2'. prepare env2 g2 = Some (Return () g2')
              \<and> prompts (new_events g2 (prepare env2 g2)) = []
              \<and> resolved_context g2' = resolved_context g1))"
proof (intro conjI impI)
  assume "refreshServer g \<and> homePath g = Some h"
  then show "Inquirer (ListPrompt GIT_SERVER_TYPE) \<in> set (new_events g (checkGitServer env g))"
    by (simp add: checkGitServer_refresh_prompts)
next
  assume "refreshToken g \<and> homePath g = Some h \<and> gitServer g = Some s"
  then show "Inquirer PasswordPrompt \<in> set (new_events g (checkGitToken env g))"
    by (simp add: checkGitToken_refresh_prompts)
next
  assume "refreshOwner g \<and> homePath g = Some h \<and> gitServer g = Some s \<and> orgs g = Some os"
  then show "Inquirer (ListPrompt (if length os > 0 then GIT_OWNER_TYPE else GIT_OWNER_TYPE_ONLY))
             \<in> set (new_events g (checkGitOwner env g))"
    using checkGitOwner_refresh_prompts[of g h s os env] by simp
next
  let ?h = "home_of env (homePath g)"
  assume a: "prepare env g = Some (Return () g1)
       \<and> files g2 = files g1
       \<and> \<not> refreshServer g2 \<and> \<not> refreshToken g2 \<and> \<not> refreshOwner g2
       \<and> cwd env2 = cwd env
       \<and> home_of env2 (homePath g2) = home_of env (homePath g)
       \<and> truthy (files g1 (cache_file (cwd env) (home_of env (homePath g)) GIT_TOKEN_FILE))
       \<and> truthy (files g1 (cache_file (cwd env) (home_of env (homePath g)) GIT_OWN_FILE))
       \<and> truthy (files g1 (cache_file (cwd env) (home_of env (homePath g)) GIT_LOGIN_FILE))
       \<and> (\<forall>tr. existsSync env2 tr) \<and> (\<forall>tr. getUser env2 tr \<noteq> None)
       \<and> (\<forall>tr. getRepo env2 tr \<noteq> None)"
  then have first: "prepare env g = Some (Return () g1)" by simp
  from a have wd: "cwd env2 = cwd env" by simp
  from prepare_caches_context[OF first] obtain v t own l s where
    c: "files g1 (cache_file (cwd env) ?h GIT_SERVER_FILE) = Some v" "createGitServer v = Some s"
       "files g1 (cache_file (cwd env) ?h GIT_TOKEN_FILE) = Some t"
       "files g1 (cache_file (cwd env) ?h GIT_OWN_FILE) = Some own"
       "files g1 (cache_file (cwd env) ?h GIT_LOGIN_FILE) = Some l"
       "resolved_context g1 = (Some s, Some t, own, Some l)"
    by blast
  from a c have ne: "t \<noteq> []" "own \<noteq> []" "l \<noteq> []" by simp_all
  from a c have f2: "files g2 (cache_file (cwd env2) ?h GIT_SERVER_FILE) = Some v"
       "files g2 (cache_file (cwd env2) ?h GIT_TOKEN_FILE) = Some t"
       "files g2 (cache_file (cwd env2) ?h GIT_OWN_FILE) = Some own"
       "files g2 (cache_file (cwd env2) ?h GIT_LOGIN_FILE) = Some l"
    unfolding wd by simp_all
  from a have rest: "\<not> refreshServer g2" "\<not> refreshToken g2" "\<not> refreshOwner g2"
    "home_of env2 (homePath g2) = ?h"
    "\<forall>tr. existsSync env2 tr" "\<forall>tr. getUser env2 tr \<noteq> None" "\<forall>tr. getRepo env2 tr \<noteq> None"
    by simp_all
  from prepare_cached_run[OF rest(1-4) f2(1) c(2) f2(2) ne(1) f2(3) ne(2) f2(4) ne(3) rest(5-7)]
  show "\<exists>g2'. prepare env2 g2 = Some (Return () g2')
              \<and> prompts (new_events g2 (prepare env2 g2)) = []
              \<and> resolved_context g2' = resolved_context g1"
    unfolding c(6) .
qed

text \<open>
  The theorem at objects with a refresh flag set over a cache in which every entry is
  filled, and at a first \<open>prepare\<close> of a new object with an empty cache (the operator
  is asked for everything) followed by a second one over the files it left.
\<close>

theorem refresh_prompts_and_cached_prepare_is_silent_witness:
  "Inquirer (ListPrompt GIT_SERVER_TYPE) \<in> set (new_events
       (fresh_git\<lparr>homePath := Some ''/home/dev/.imooc-cli'', refreshServer := True,
                  files := \<lambda>p. Some ''gitee''\<rparr>)
       (checkGitServer calm_env
          (fresh_git\<lparr>homePath := Some ''/home/dev/.imooc-cli'', refreshServer := True,
                     files := \<lambda>p. Some ''gitee''\<rparr>)))
   \<and> Inquirer PasswordPrompt \<in> set (new_events
       (fresh_git\<lparr>homePath := Some ''/home/dev/.imooc-cli'', refreshToken := True,
                  gitServer := Some Gitee, files := \<lambda>p. Some ''gitee''\<rparr>)
       (checkGitToken calm_env
          (fresh_git\<lparr>homePath := Some ''/home/dev/.imooc-cli'', refreshToken := True,
                     gitServer := Some Gitee, files := \<lambda>p. Some ''gitee''\<rparr>)))
   \<and> Inquirer (ListPrompt GIT_OWNER_TYPE) \<in> set (new_events
       (fresh_git\<lparr>homePath := Some ''/home/dev/.imooc-cli'', refreshOwner := True,
                  gitServer := Some Gitee, orgs := Some [''acme''],
                  files := \<lambda>p. Some ''user''\<rparr>)
       (checkGitOwner calm_env
          (fresh_git\<lparr>homePath := Some ''/home/dev/.imooc-cli'', refreshOwner := True,
                     gitServer := Some Gitee, orgs := Some [''acme''],
                     files := \<lambda>p. Some ''user''\<rparr>)))
   \<and> prompts (new_events fresh_git (prepare calm_env fresh_git))
       = [Inquirer (ListPrompt [''github'', ''gitee'']), Inquirer PasswordPrompt,
          Inquirer (ListPrompt [''user''])]
   \<and> (\<exists>g1 g2'. prepare calm_env fresh_git = Some (Return () g1)
         \<and> prepare calm_env (fresh_git\<lparr>files := files g1\<rparr>) = Some (Return () g2')
         \<and> prompts (new_events (fresh_git\<lparr>files := files g1\<rparr>)
                      (prepare calm_env (fresh_git\<lparr>files := files g1\<rparr>))) = []
         \<and> resolved_context g2' = resolved_context g1)"
proof -
  let ?gs = "fresh_git\<lparr>homePath := Some ''/home/dev/.imooc-cli'', refreshServer := True,
                  files := \<lambda>p. Some ''gitee''\<rparr>"
  let ?gt = "fresh_git\<lparr>homePath := Some ''/home/dev/.imooc-cli'', refreshToken := True,
                  gitServer := Some Gitee, files := \<lambda>p. Some ''gitee''\<rparr>"
  let ?go = "fresh_git\<lparr>homePath := Some ''/home/dev/.imooc-cli'', refreshOwner := True,
                  gitServer := Some Gitee, orgs := Some [''acme''],
                  files := \<lambda>p. Some ''user''\<rparr>"
  let ?h = "home_of calm_env (homePath fresh_git)"
  have "returned (prepare calm_env fresh_git) = Some ()"
    by code_simp
  from returned_Some[OF this] obtain g1 where first: "prepare calm_env fresh_git = Some (Return () g1)"
    by blast
  have g1: "g1 = state_of (the (prepare calm_env fresh_git))"
    unfolding first by (simp add: state_of_def)
  let ?g2 = "fresh_git\<lparr>files := files g1\<rparr>"
  have cached:
    "truthy (files g1 (cache_file (cwd calm_env) ?h GIT_TOKEN_FILE))"
    "truthy (files g1 (cache_file (cwd calm_env) ?h GIT_OWN_FILE))"
    "truthy (files g1 (cache_file (cwd calm_env) ?h GIT_LOGIN_FILE))"
    unfolding g1 by code_simp+
  have flags: "\<not> refreshServer ?g2" "\<not> refreshToken ?g2" "\<not> refreshOwner ?g2"
    "home_of calm_env (homePath ?g2) = ?h"
    by (simp_all add: fresh_git_def new_Git_def)
  have host: "\<forall>tr. existsSync calm_env tr" "\<forall>tr. getUser calm_env tr \<noteq> None"
    "\<forall>tr. getRepo calm_env tr \<noteq> None"
    by (simp_all add: calm_env_def)
  have asked: "prompts (new_events fresh_git (prepare calm_env fresh_git))
       = [Inquirer (ListPrompt [''github'', ''gitee'']), Inquirer PasswordPrompt,
          Inquirer (ListPrompt [''user''])]"
    by code_simp
  note claim = refresh_prompts_and_cached_prepare_is_silent
  have one: "Inquirer (ListPrompt GIT_SERVER_TYPE) \<in> set (new_events ?gs (checkGitServer calm_env ?gs))"
    using claim[of ?gs "''/home/dev/.imooc-cli''" calm_env] by simp
  have two: "Inquirer PasswordPrompt \<in> set (new_events ?gt (checkGitToken calm_env ?gt))"
    using claim[of ?gt "''/home/dev/.imooc-cli''" calm_env Gitee] by simp
  have three: "Inquirer (ListPrompt GIT_OWNER_TYPE) \<in> set (new_events ?go (checkGitOwner calm_env ?go))"
    using claim[of ?go "''/home/dev/.imooc-cli''" calm_env Gitee "[''acme'']"] by simp
  have four: "\<exists>g2'. prepare calm_env ?g2 = Some (Return () g2')
              \<and> prompts (new_events ?g2 (prepare calm_env ?g2)) = []
              \<and> resolved_context g2' = resolved_context g1"
    using claim[of fresh_git _ calm_env _ _ g1 ?g2 calm_env] first cached flags host by simp
  from one two three asked first four show ?thesis by blast
qed

subsection \<open>C8: the order of \<open>commit\<close>\<close>

text \<open>
  Claim C8 fails on the code.  The pull of the branch of the current version is made
  when the version is among those \<open>getRemoteBranchList\<close> extracts, and that scan misses
  the line after a line that matched (claim C6).  With \<open>dev/1.0.0\<close> and \<open>dev/2.0.0\<close>
  on consecutive lines of the remote listing and \<open>2.0.0\<close> the current version, the
  remote branch of the version exists, and \<open>commit\<close> goes from the pull of \<open>master\<close>
  and its conflict check straight to the push: the calls of the run are the first six
  steps of the claim in their order, then the listing of the remote refs, then the
  push, with no pull of \<open>dev/2.0.0\<close> and no conflict check for it between them.
\<close>

theorem commit_skips_pull_of_listed_branch:
  "returned (commit (calm_env\<lparr>git_listRemote := \<lambda>tr. Inr two_dev_refs\<rparr>)
               (fresh_git\<lparr>version := ''2.0.0''\<rparr>)) = Some ()
   \<and> split_on newline two_dev_refs
       = [ref_line sha_a ''refs/heads/dev/1.0.0'', ref_line sha_b ''refs/heads/dev/2.0.0'']
   \<and> semver2_valid ''2.0.0''
   \<and> git_calls (new_events (fresh_git\<lparr>version := ''2.0.0''\<rparr>)
        (commit (calm_env\<lparr>git_listRemote := \<lambda>tr. Inr two_dev_refs\<rparr>)
           (fresh_git\<lparr>version := ''2.0.0''\<rparr>)))
     = [GitListRemote [''--refs''], GitStashList, GitStatus, GitStatus, GitBranchLocal,
        GitCheckoutLocalBranch ''dev/2.0.0'', GitPull ''origin'' ''master'' [], GitStatus,
        GitListRemote [''--refs''], GitPush ''origin'' ''dev/2.0.0'']"
  by code_simp

subsection \<open>C9: the exit code of a failed pull\<close>

text \<open>
  Claim C9.  A pull that fails with a message without the public-key signature ends
  the process through \<open>process.exit(0)\<close>: exit code \<open>0\<close>, the missing-branch case
  included.
\<close>

theorem pullRemoteRepo_exits_with_zero:
  assumes "git_run env (events g @ [Log Notice [''sync remote branch '' @ b],
                                   GitPull ''origin'' b opts]) = Some message"
    and "string_indexOf message ''Permission denied (publickey)'' < 0"
  shows "\<exists>g'. pullRemoteRepo env b opts g = Some (Exit 0 g')"
  using assms by (simp add: pullRemoteRepo_run)

text \<open>The theorem at a pull rejected because the network is down.\<close>

theorem pullRemoteRepo_exits_with_zero_witness:
  "\<exists>g'. pullRemoteRepo
           (calm_env\<lparr>git_run := \<lambda>tr. Some ''fatal: unable to access the remote''\<rparr>)
           ''master'' [] fresh_git = Some (Exit 0 g')"
proof -
  have rejected: "git_run (calm_env\<lparr>git_run := \<lambda>tr. Some ''fatal: unable to access the remote''\<rparr>)
                    (events fresh_git @ [Log Notice [''sync remote branch '' @ ''master''],
                                         GitPull ''origin'' ''master'' []])
                  = Some ''fatal: unable to access the remote''"
    by simp
  have absent: "string_indexOf ''fatal: unable to access the remote''
                  ''Permission denied (publickey)'' < 0"
    by code_simp
  from pullRemoteRepo_exits_with_zero[OF rejected absent] show ?thesis .
qed

subsection \<open>C10: \<open>commit\<close> works on the \<open>dev\<close> channel\<close>

text \<open>
  Claim C10.  A returning run of \<open>commit\<close> leaves the branch \<open>dev/<version>\<close>, for the
  version of the object whatever it is; every call it makes to the git engine that
  names a branch names \<open>master\<close> or \<open>dev/<version>\<close>, so no \<open>release\<close> branch is
  touched; and it pulls \<open>dev/<version>\<close> only when the remote refs list
  \<open>refs/heads/dev/<version>\<close>, the pattern of the \<open>dev\<close> channel.
\<close>

theorem commit_uses_dev_channel:
  assumes "returned (commit env g) = Some ()"
  shows "map_option (\<lambda>r. branch (state_of r)) (commit env g) = Some (Some (''dev/'' @ version g))
       \<and> (\<forall>e \<in> set (new_events g (commit env g)).
             branch_of_call e = None \<or> branch_of_call e = Some ''master''
             \<or> branch_of_call e = Some (''dev/'' @ version g))
       \<and> (GitPull ''origin'' (''dev/'' @ version g) [] \<in> set (new_events g (commit env g))
            \<longrightarrow> (\<exists>tr remoteList. prefix tr (events g @ new_events g (commit env g))
                    \<and> git_listRemote env tr = Inr remoteList
                    \<and> string_indexOf remoteList (''refs/heads/dev/'' @ version g) \<ge> 0))"
proof -
  let ?b = "''dev/'' @ version g"
  from returned_Some[OF assms] obtain g' where run: "commit env g = Some (Return () g')"
    by blast
  from commit_Return[OF run] obtain evs stash staged co branchPull where
    g': "g' = g\<lparr>branch := Some ?b, events := events g @ evs\<rparr>" and
    calls: "git_calls evs =
             [GitListRemote [''--refs''], GitStashList] @ stash @ [GitStatus, GitStatus] @ staged
             @ [GitBranchLocal, co, GitPull ''origin'' ''master'' [], GitStatus,
                GitListRemote [''--refs'']]
             @ branchPull @ [GitPush ''origin'' ?b]" and
    stash: "stash = [] \<or> stash = [GitStash [''pop'']]" and
    staged: "staged = []
            \<or> (\<exists>a b c d e m. staged =
                  [GitAdd a, GitAdd b, GitAdd c, GitAdd d, GitAdd e, GitCommit m])" and
    co: "co = GitCheckout ?b \<or> co = GitCheckoutLocalBranch ?b" and
    bp: "branchPull = []
            \<or> branchPull = [GitPull ''origin'' ?b [], GitStatus]
              \<and> semver_valid env (version g)
              \<and> (\<exists>tr remoteList. prefix tr (events g') \<and> git_listRemote env tr = Inr remoteList
                    \<and> string_indexOf remoteList (''refs/heads/dev/'' @ version g) \<ge> 0)"
    by blast
  have new: "new_events g (commit env g) = evs"
    unfolding run g' by simp
  have ev: "events g' = events g @ evs"
    unfolding g' by simp
  have named: "branch_of_call e = None \<or> branch_of_call e = Some ''master''
               \<or> branch_of_call e = Some ?b" if "e \<in> set (git_calls evs)" for e
    using that stash staged co bp unfolding calls by auto
  have one: "map_option (\<lambda>r. branch (state_of r)) (commit env g) = Some (Some ?b)"
    unfolding run g' by (simp add: state_of_def)
  have two: "\<forall>e \<in> set evs. branch_of_call e = None \<or> branch_of_call e = Some ''master''
               \<or> branch_of_call e = Some ?b"
  proof
    fix e assume e: "e \<in> set evs"
    show "branch_of_call e = None \<or> branch_of_call e = Some ''master''
               \<or> branch_of_call e = Some ?b"
    proof (cases "branch_of_call e = None")
      case True
      then show ?thesis by simp
    next
      case False
      then have "e \<in> set (git_calls evs)"
        using e by (intro in_git_calls branch_of_call_git_call)
      then show ?thesis by (rule named)
    qed
  qed
  have three: "\<exists>tr remoteList. prefix tr (events g @ evs)
                    \<and> git_listRemote env tr = Inr remoteList
                    \<and> string_indexOf remoteList (''refs/heads/dev/'' @ version g) \<ge> 0"
    if "GitPull ''origin'' ?b [] \<in> set evs"
  proof -
    from that have "GitPull ''origin'' ?b [] \<in> set (git_calls evs)"
      by (intro in_git_calls) simp_all
    then have "branchPull \<noteq> []"
      using stash staged co unfolding calls by auto
    with bp show ?thesis unfolding ev by blast
  qed
  from one two three show ?thesis unfolding new by blast
qed

text \<open>
  The theorem at two runs in which every call succeeds.  In the first the remote
  holds a release tag of the version and no \<open>dev\<close> branch: the branch is
  \<open>dev/1.0.0\<close>.  In the second the remote holds \<open>refs/heads/dev/1.0.0\<close>: that branch
  is pulled, and the listing that names it is found.
\<close>

theorem commit_uses_dev_channel_witness:
  "map_option (\<lambda>r. branch (state_of r))
     (commit (calm_env\<lparr>git_listRemote := \<lambda>tr. Inr (ref_line sha_a ''refs/tags/release/1.0.0'')\<rparr>)
        fresh_git) = Some (Some ''dev/1.0.0'')
   \<and> GitPull ''origin'' ''dev/1.0.0'' [] \<in> set (new_events fresh_git
        (commit (calm_env\<lparr>git_listRemote := \<lambda>tr. Inr (ref_line sha_a ''refs/heads/dev/1.0.0'')\<rparr>)
           fresh_git))
   \<and> (\<exists>tr remoteList.
         git_listRemote
           (calm_env\<lparr>git_listRemote := \<lambda>tr. Inr (ref_line sha_a ''refs/heads/dev/1.0.0'')\<rparr>) tr
           = Inr remoteList
       \<and> string_indexOf remoteList ''refs/heads/dev/1.0.0'' \<ge> 0)"
proof -
  let ?tags = "calm_env\<lparr>git_listRemote := \<lambda>tr. Inr (ref_line sha_a ''refs/tags/release/1.0.0'')\<rparr>"
  let ?heads = "calm_env\<lparr>git_listRemote := \<lambda>tr. Inr (ref_line sha_a ''refs/heads/dev/1.0.0'')\<rparr>"
  have run: "returned (commit ?tags fresh_git) = Some ()"
    by code_simp
  have run': "returned (commit ?heads fresh_git) = Some ()"
    by code_simp
  have pulled: "GitPull ''origin'' ''dev/1.0.0'' [] \<in> set (new_events fresh_git (commit ?heads fresh_git))"
    by code_simp
  have v: "''dev/'' @ version fresh_git = ''dev/1.0.0''"
    "''refs/heads/dev/'' @ version fresh_git = ''refs/heads/dev/1.0.0''"
    by (simp_all add: fresh_git_def new_Git_def)
  from commit_uses_dev_channel[OF run]
  have one: "map_option (\<lambda>r. branch (state_of r)) (commit ?tags fresh_git)
               = Some (Some ''dev/1.0.0'')"
    unfolding v by blast
  from commit_uses_dev_channel[OF run'] pulled
  have two: "\<exists>tr remoteList. git_listRemote ?heads tr = Inr remoteList
       \<and> string_indexOf remoteList ''refs/heads/dev/1.0.0'' \<ge> 0"
    unfolding v by blast
  from one pulled two show ?thesis by blast
qed

end
